theory Spec2Isabelle
  imports Main "HOL-Library.Word" "HOL-Library.Multiset"
begin

unbundle bit_operations_syntax

section \<open>Bytes and strings\<close>

text \<open>
  A Go \<^verbatim>\<open>string\<close> is a sequence of bytes, and \<^verbatim>\<open>len\<close> counts bytes. Strings are
  modelled as \<^typ>\<open>string\<close> (a list of 8-bit characters), byte slices as lists of
  8-bit words. \<^verbatim>\<open>[]byte(s)\<close> is \<open>bytes_of\<close>.
\<close>

type_synonym byte = "8 word"

definition bytes_of :: "string \<Rightarrow> byte list" where
  "bytes_of s = map (\<lambda>c. of_nat (of_char c)) s"

subsection \<open>The standard library's string functions\<close>

text \<open>
  \<^verbatim>\<open>strings.TrimSpace\<close> removes leading and trailing white space as Unicode defines it:
  the ASCII characters tab, line feed, vertical tab, form feed, carriage return and
  space, and the UTF-8 encodings of U+0085, U+00A0, U+1680, U+2000 to U+200A, U+2028,
  U+2029, U+202F, U+205F and U+3000. Ill-formed UTF-8 is not white space.
\<close>

definition asciiSpace :: "char \<Rightarrow> bool" where
  "asciiSpace c = (of_char c \<in> {9, 10, 11, 12, 13, 32 :: nat})"

definition space2 :: "char \<Rightarrow> char \<Rightarrow> bool" where
  "space2 a b = (of_char a = (194 :: nat) \<and> of_char b \<in> {133, 160 :: nat})"

definition space3 :: "char \<Rightarrow> char \<Rightarrow> char \<Rightarrow> bool" where
  "space3 a b c =
     ((of_char a = (225 :: nat) \<and> of_char b = (154 :: nat) \<and> of_char c = (128 :: nat))
      \<or> (of_char a = (226 :: nat) \<and> of_char b = (128 :: nat)
           \<and> ((128 :: nat) \<le> of_char c \<and> of_char c \<le> (138 :: nat)
                \<or> of_char c \<in> {168, 169, 175 :: nat}))
      \<or> (of_char a = (226 :: nat) \<and> of_char b = (129 :: nat) \<and> of_char c = (159 :: nat))
      \<or> (of_char a = (227 :: nat) \<and> of_char b = (128 :: nat) \<and> of_char c = (128 :: nat)))"

fun trimLeft :: "string \<Rightarrow> string" where
  "trimLeft (a # b # c # rest) =
     (if asciiSpace a then trimLeft (b # c # rest)
      else if space2 a b then trimLeft (c # rest)
      else if space3 a b c then trimLeft rest
      else a # b # c # rest)"
| "trimLeft [a, b] =
     (if asciiSpace a then trimLeft [b] else if space2 a b then [] else [a, b])"
| "trimLeft [a] = (if asciiSpace a then [] else [a])"
| "trimLeft [] = []"

text \<open>The same scan from the end, on the reversed string.\<close>

fun trimRightRev :: "string \<Rightarrow> string" where
  "trimRightRev (c # b # a # rest) =
     (if asciiSpace c then trimRightRev (b # a # rest)
      else if space2 b c then trimRightRev (a # rest)
      else if space3 a b c then trimRightRev rest
      else c # b # a # rest)"
| "trimRightRev [c, b] =
     (if asciiSpace c then trimRightRev [b] else if space2 b c then [] else [c, b])"
| "trimRightRev [c] = (if asciiSpace c then [] else [c])"
| "trimRightRev [] = []"

definition TrimSpace :: "string \<Rightarrow> string" where
  "TrimSpace s = rev (trimRightRev (rev (trimLeft s)))"

text \<open>
  \<^verbatim>\<open>strings.ToUpper\<close> and \<^verbatim>\<open>strings.EqualFold\<close> on ASCII text: the letters a to z are
  mapped to A to Z and every other byte is kept. Go consults the Unicode case tables
  for text outside ASCII and rewrites bytes that are not UTF-8; those tables are not
  part of this model. The two definitions are the standard library's functions on
  ASCII strings only (\<open>is_ascii\<close> below).
\<close>

definition upper_char :: "char \<Rightarrow> char" where
  "upper_char c =
     (if (97 :: nat) \<le> of_char c \<and> of_char c \<le> (122 :: nat)
      then char_of (of_char c - (32 :: nat)) else c)"

definition ToUpper :: "string \<Rightarrow> string" where
  "ToUpper s = map upper_char s"

definition EqualFold :: "string \<Rightarrow> string \<Rightarrow> bool" where
  "EqualFold s t = (ToUpper s = ToUpper t)"


text \<open>\<^verbatim>\<open>strconv.Itoa\<close> for the numbers that appear in error messages.\<close>

definition digit_char :: "nat \<Rightarrow> char" where
  "digit_char d = char_of (48 + d mod 10)"

function itoa_nat :: "nat \<Rightarrow> string" where
  "itoa_nat n = (if n < 10 then [digit_char n] else itoa_nat (n div 10) @ [digit_char n])"
  by pat_completeness auto
termination
  by (relation "measure id") auto

declare itoa_nat.simps [simp del]

definition Itoa :: "int \<Rightarrow> string" where
  "Itoa i = (if i < 0 then CHR ''-'' # itoa_nat (nat (- i)) else itoa_nat (nat i))"

section \<open>internal/crypto/aes.go\<close>

text \<open>
  \<^verbatim>\<open>bytesRepeat\<close> allocates \<open>count\<close> zero bytes and overwrites each of them with \<open>b\<close>;
  the loop over the indices is the recursion on \<open>count\<close>.
\<close>

fun bytesRepeat :: "byte \<Rightarrow> nat \<Rightarrow> byte list" where
  "bytesRepeat b 0 = []"
| "bytesRepeat b (Suc n) = b # bytesRepeat b n"

text \<open>
  \<^verbatim>\<open>padding := blockSize - len(data)%blockSize\<close>, then \<^verbatim>\<open>byte(padding)\<close> repeated
  \<open>padding\<close> times is appended. The conversion to a byte keeps the low eight bits.
\<close>

definition pkcs7Pad :: "byte list \<Rightarrow> nat \<Rightarrow> byte list" where
  "pkcs7Pad data blockSize =
     (let padding = blockSize - length data mod blockSize
      in data @ bytesRepeat (of_nat padding) padding)"

text \<open>
  The standard library's CBC encrypter (\<^verbatim>\<open>cipher.NewCBCEncrypter\<close>, \<^verbatim>\<open>CryptBlocks\<close>):
  each 16-byte block is XORed with the previous ciphertext block (the IV for the first
  one) and passed through the block cipher. The block cipher itself
  (\<^verbatim>\<open>aes.NewCipher(key)\<close>) is a parameter \<open>blk\<close>: a function from the key and a
  16-byte block to a 16-byte block.
\<close>

definition xor_block :: "byte list \<Rightarrow> byte list \<Rightarrow> byte list" where
  "xor_block xs ys = map (\<lambda>(x, y). x XOR y) (zip xs ys)"

function CryptBlocks :: "(byte list \<Rightarrow> byte list) \<Rightarrow> byte list \<Rightarrow> byte list \<Rightarrow> byte list" where
  "CryptBlocks enc prev src =
     (if src = [] then []
      else let c = enc (xor_block prev (take 16 src))
           in c @ CryptBlocks enc c (drop 16 src))"
  by pat_completeness auto
termination
  by (relation "measure (\<lambda>(enc, prev, src). length src)") auto

declare CryptBlocks.simps [simp del]

text \<open>
  \<^verbatim>\<open>base64.StdEncoding.EncodeToString\<close> (RFC 4648, alphabet \<^verbatim>\<open>A-Za-z0-9+/\<close>, padded
  with \<^verbatim>\<open>=\<close>): three bytes become four 6-bit digits.
\<close>

definition b64_alphabet :: string where
  "b64_alphabet = ''ABCDEFGHIJKLMNOPQRSTUVWXYZabcdefghijklmnopqrstuvwxyz0123456789+/''"

definition b64_digit :: "nat \<Rightarrow> char" where
  "b64_digit n = b64_alphabet ! (n mod 64)"

fun EncodeToString :: "byte list \<Rightarrow> string" where
  "EncodeToString (a # b # c # rest) =
     b64_digit (unat a div 4) #
     b64_digit ((unat a mod 4) * 16 + unat b div 16) #
     b64_digit ((unat b mod 16) * 4 + unat c div 64) #
     b64_digit (unat c mod 64) # EncodeToString rest"
| "EncodeToString [a, b] =
     [b64_digit (unat a div 4),
      b64_digit ((unat a mod 4) * 16 + unat b div 16),
      b64_digit ((unat b mod 16) * 4), CHR ''='']"
| "EncodeToString [a] =
     [b64_digit (unat a div 4), b64_digit ((unat a mod 4) * 16), CHR ''='', CHR ''='']"
| "EncodeToString [] = []"

text \<open>
  The errors of \<^verbatim>\<open>EncryptToBase64\<close>. \<^verbatim>\<open>aes.NewCipher\<close> rejects every key whose length
  is not 16, 24 or 32 with a \<^verbatim>\<open>KeySizeError\<close>; the function's own length test after it
  is kept as the source has it.
\<close>

datatype crypto_error =
    KeySizeError nat
  | KeyMustBe16_24_32
  | IvMustBe16

definition aes_BlockSize :: nat where
  "aes_BlockSize = 16"

definition EncryptToBase64 ::
  "(byte list \<Rightarrow> byte list \<Rightarrow> byte list) \<Rightarrow> byte list \<Rightarrow> byte list \<Rightarrow> byte list
     \<Rightarrow> crypto_error + string" where
  "EncryptToBase64 blk plaintext key iv =
     (if length key \<noteq> 16 \<and> length key \<noteq> 24 \<and> length key \<noteq> 32
        then Inl (KeySizeError (length key))
      else if length key \<noteq> 16 \<and> length key \<noteq> 24 \<and> length key \<noteq> 32
        then Inl KeyMustBe16_24_32
      else if length iv \<noteq> aes_BlockSize then Inl IvMustBe16
      else let padded = pkcs7Pad plaintext aes_BlockSize
           in Inr (EncodeToString (CryptBlocks (blk key) iv padded)))"

text \<open>
  \<^verbatim>\<open>GenerateString\<close>: \<open>n\<close> bytes are read from the entropy source and each is mapped
  onto the alphabet \<open>letters\<close> of 88 symbols. The entropy source is the list of bytes
  it can still deliver; \<^verbatim>\<open>io.ReadFull\<close> fails when fewer than \<open>n\<close> are left. The
  remaining source is returned with the result.
\<close>

definition letters :: string where
  "letters = ''abcdefghijklmnopqrstuvwxyzABCDEFGHIJKLMNOPQRSTUVWXYZ0123456789!@#$%^&*()-_=+[]{}|;:,.<>?''"

datatype gen_error = LengthMustBePositive | EntropyReadFailed

definition GenerateString :: "byte list \<Rightarrow> int \<Rightarrow> (gen_error + string) \<times> byte list" where
  "GenerateString rnd n =
     (if n \<le> 0 then (Inl LengthMustBePositive, rnd)
      else if length rnd < nat n then (Inl EntropyReadFailed, rnd)
      else (Inr (map (\<lambda>b. letters ! (unat b mod length letters)) (take (nat n) rnd)),
            drop (nat n) rnd))"

section \<open>internal/model\<close>

text \<open>
  A \<^verbatim>\<open>time.Time\<close> is the number of nanoseconds since the zero time, so \<^verbatim>\<open>IsZero\<close> is
  the test for 0.
\<close>

type_synonym time = int

definition IsZero :: "time \<Rightarrow> bool" where
  "IsZero t = (t = 0)"

record Device =
  DeviceToken :: string
  DeviceKey :: string
  Name :: string
  Algorithm :: string
  Mode :: string
  Padding :: string
  EncodeKey :: string
  IV :: string
  Status :: string
  CreatedAt :: time
  UpdatedAt :: time

definition DeviceStatusActive :: string where
  "DeviceStatusActive = ''ACTIVE''"


record NoticeRequest =
  Title :: string
  Subtitle :: string
  Body :: string
  Group :: string
  Url :: string
  Icon :: string
  Image :: string
  DeviceKeys :: "string list"

record NoticeResult =
  res_DeviceKey :: string
  res_Status :: string
  res_Message :: string

record NoticeSummary =
  SendNum :: nat
  SuccessNum :: nat

record NoticeLog =
  log_ID :: nat
  log_DeviceKey :: string
  log_URL :: string
  log_Title :: string
  log_Body :: string
  log_Group :: string
  log_Result :: string
  log_Status :: string
  log_CreatedAt :: time
  log_UpdatedAt :: time

text \<open>
  The fields \<open>Page\<close> and \<open>PageSize\<close> are Go \<^verbatim>\<open>int\<close>s, 64 bits wide on the platforms
  the service is built for (the image is built for amd64). They are integers here, and
  each arithmetic operation of \<^verbatim>\<open>Query\<close> writes the wrap-around out.
\<close>

record NoticeLogFilter =
  f_DeviceKey :: string
  f_Group :: string
  f_Status :: string
  BeginTime :: "int option"
  EndTime :: "int option"
  Page :: int
  PageSize :: int

record NoticeLogPage =
  Data :: "NoticeLog list"
  Total :: int
  Pages :: int
  PageNum :: int
  page_PageSize :: int

section \<open>internal/config and the upstream client\<close>

record CryptoConfig =
  DefaultAlgorithm :: string
  DefaultMode :: string
  DefaultPadding :: string
  KeyBytes :: int
  IVBytes :: int

text \<open>
  The client of the upstream push service is its base URL, already printed as a string.
  A service holds a client or \<^verbatim>\<open>nil\<close>. What the upstream answers is not decided by
  this program; the answers are inputs of the functions that call it.
\<close>

record Client =
  baseURL :: string

record RegisterData =
  rd_Key :: string
  rd_DeviceKey :: string
  rd_DeviceToken :: string

record PushResponse =
  Code :: int
  Message :: string

fun trimRightSlashRev :: "string \<Rightarrow> string" where
  "trimRightSlashRev [] = []"
| "trimRightSlashRev (c # cs) = (if c = CHR ''/'' then trimRightSlashRev cs else c # cs)"

definition BaseURL :: "Client \<Rightarrow> string" where
  "BaseURL c = rev (trimRightSlashRev (rev (baseURL c)))"

definition DeviceEndpoint :: "Client \<Rightarrow> string \<Rightarrow> string" where
  "DeviceEndpoint c deviceKey = BaseURL c @ ''/'' @ deviceKey"

section \<open>internal/storage/bolt\<close>

text \<open>
  A bucket is its records in the byte order of their keys, the order in which
  \<^verbatim>\<open>ForEach\<close> visits them. \<^verbatim>\<open>Put\<close> replaces the record of a key it finds and inserts
  a new key at its place. The store is the device bucket, the log bucket (its keys are
  the big-endian ids, so it is in id order) and the sequence of the log bucket.

  The buckets hold the records as \<^verbatim>\<open>json.Unmarshal\<close> reads them; what the JSON encoding
  does to a record on its way into the file is \<open>json_Device\<close> and \<open>json_NoticeLog\<close> below.
\<close>

fun key_less :: "string \<Rightarrow> string \<Rightarrow> bool" where
  "key_less [] [] = False"
| "key_less [] (y # ys) = True"
| "key_less (x # xs) [] = False"
| "key_less (x # xs) (y # ys) =
     ((of_char x :: nat) < of_char y \<or> (x = y \<and> key_less xs ys))"

fun bucket_put :: "string \<Rightarrow> 'a \<Rightarrow> (string \<times> 'a) list \<Rightarrow> (string \<times> 'a) list" where
  "bucket_put k v [] = [(k, v)]"
| "bucket_put k v ((k', v') # rest) =
     (if k = k' then (k, v) # rest
      else if key_less k k' then (k, v) # (k', v') # rest
      else (k', v') # bucket_put k v rest)"

record store =
  devices :: "(string \<times> Device) list"
  logs :: "NoticeLog list"
  seq :: nat

text \<open>
  Every operation of the store first looks at the context and then runs a transaction;
  either may fail. Such a failure is an input of the operation: \<open>Some msg\<close> makes it
  fail with that message, \<open>None\<close> lets it run.
\<close>

datatype error =
    ErrNotFound
  | ErrStore string
  | ErrDeviceTokenRequired
  | ErrGenerate gen_error
  | ErrEncodeKeyLength
  | ErrIVLength int
  | ErrBarkNotConfiguredRegister
  | ErrUpstream string
  | ErrRegisterEmptyKey
  | ErrBodyRequired
  | ErrBarkNotConfigured
  | ErrNoTargets

definition gen_error_string :: "gen_error \<Rightarrow> string" where
  "gen_error_string e =
     (case e of LengthMustBePositive \<Rightarrow> ''length must be positive''
              | EntropyReadFailed \<Rightarrow> ''unexpected EOF'')"

definition error_string :: "error \<Rightarrow> string" where
  "error_string e =
     (case e of
        ErrNotFound \<Rightarrow> ''not found''
      | ErrStore m \<Rightarrow> m
      | ErrDeviceTokenRequired \<Rightarrow> ''deviceToken is required''
      | ErrGenerate g \<Rightarrow> gen_error_string g
      | ErrEncodeKeyLength \<Rightarrow> ''encodeKey must be 16, 24 or 32 characters''
      | ErrIVLength n \<Rightarrow> ''iv must be '' @ Itoa n @ '' characters''
      | ErrBarkNotConfiguredRegister \<Rightarrow> ''bark client not configured, cannot register device''
      | ErrUpstream m \<Rightarrow> m
      | ErrRegisterEmptyKey \<Rightarrow> ''register failed: empty device key''
      | ErrBodyRequired \<Rightarrow> ''body is required''
      | ErrBarkNotConfigured \<Rightarrow> ''bark client not configured''
      | ErrNoTargets \<Rightarrow> ''no target devices resolved'')"

text \<open>
  \<^verbatim>\<open>getByKey\<close> visits the device bucket in key order and stops at the first record that
  the matcher accepts. Its parameter \<open>key\<close> is not used in its body.
\<close>

definition getByKey :: "store \<Rightarrow> string option \<Rightarrow> string \<Rightarrow> (Device \<Rightarrow> bool) \<Rightarrow> error + Device" where
  "getByKey s fault key matcher =
     (case fault of
        Some m \<Rightarrow> Inl (ErrStore m)
      | None \<Rightarrow>
          (case find (\<lambda>kv. matcher (snd kv)) (devices s) of
             None \<Rightarrow> Inl ErrNotFound
           | Some kv \<Rightarrow> Inr (snd kv)))"

definition GetDevice :: "store \<Rightarrow> string option \<Rightarrow> string \<Rightarrow> error + Device" where
  "GetDevice s fault token = getByKey s fault token (\<lambda>d. True)"

definition GetDeviceByKey :: "store \<Rightarrow> string option \<Rightarrow> string \<Rightarrow> error + Device" where
  "GetDeviceByKey s fault key = getByKey s fault key (\<lambda>d. DeviceKey d = key)"

definition list_devices :: "store \<Rightarrow> string option \<Rightarrow> (Device \<Rightarrow> bool) \<Rightarrow> error + Device list" where
  "list_devices s fault flt =
     (case fault of
        Some m \<Rightarrow> Inl (ErrStore m)
      | None \<Rightarrow> Inr (filter flt (map snd (devices s))))"

definition is_active :: "Device \<Rightarrow> bool" where
  "is_active d =
     (let status = ToUpper (TrimSpace (Status d))
      in status = [] \<or> status = DeviceStatusActive)"

definition ListActiveDevices :: "store \<Rightarrow> string option \<Rightarrow> error + Device list" where
  "ListActiveDevices s fault = list_devices s fault is_active"

text \<open>
  A record is written to its bucket as the output of \<^verbatim>\<open>json.Marshal\<close> and read back by
  \<^verbatim>\<open>json.Unmarshal\<close>. The encoder walks through a string rune by rune and writes
  U+FFFD for every byte at which no well-formed UTF-8 sequence starts; all its other
  escapes are undone by the decoder. So a string comes back with each such byte
  replaced by the three bytes \<^verbatim>\<open>EF BF BD\<close>, and unchanged if it is well-formed UTF-8.

  \<open>rune_len\<close> is the length of the well-formed sequence at the head of a string, as
  \<^verbatim>\<open>utf8.DecodeRuneInString\<close> accepts it (no overlong forms, no surrogates, nothing
  above U+10FFFF), and 0 if there is none.
\<close>

definition cont_byte :: "char \<Rightarrow> bool" where
  "cont_byte c = ((128 :: nat) \<le> of_char c \<and> of_char c \<le> (191 :: nat))"

definition second_of_3 :: "nat \<Rightarrow> char \<Rightarrow> bool" where
  "second_of_3 x b =
     (if x = 224 then (160 :: nat) \<le> of_char b \<and> of_char b \<le> (191 :: nat)
      else if x = 237 then (128 :: nat) \<le> of_char b \<and> of_char b \<le> (159 :: nat)
      else cont_byte b)"

definition second_of_4 :: "nat \<Rightarrow> char \<Rightarrow> bool" where
  "second_of_4 x b =
     (if x = 240 then (144 :: nat) \<le> of_char b \<and> of_char b \<le> (191 :: nat)
      else if x = 244 then (128 :: nat) \<le> of_char b \<and> of_char b \<le> (143 :: nat)
      else cont_byte b)"

fun rune_len :: "string \<Rightarrow> nat" where
  "rune_len [] = 0"
| "rune_len (a # rest) =
     (let x = (of_char a :: nat) in
      if x < 128 then 1
      else if 194 \<le> x \<and> x \<le> 223 then
        (case rest of b # _ \<Rightarrow> if cont_byte b then 2 else 0 | _ \<Rightarrow> 0)
      else if 224 \<le> x \<and> x \<le> 239 then
        (case rest of
           b # c # _ \<Rightarrow> if second_of_3 x b \<and> cont_byte c then 3 else 0
         | _ \<Rightarrow> 0)
      else if 240 \<le> x \<and> x \<le> 244 then
        (case rest of
           b # c # d # _ \<Rightarrow> if second_of_4 x b \<and> cont_byte c \<and> cont_byte d then 4 else 0
         | _ \<Rightarrow> 0)
      else 0)"

definition replacement_char :: string where
  "replacement_char = [char_of (239 :: nat), char_of (191 :: nat), char_of (189 :: nat)]"

function json_string :: "string \<Rightarrow> string" where
  "json_string s =
     (if s = [] then []
      else if rune_len s = 0 then replacement_char @ json_string (tl s)
      else take (rune_len s) s @ json_string (drop (rune_len s) s))"
  by pat_completeness auto
termination
  by (relation "measure length") auto

declare json_string.simps [simp del]

definition json_Device :: "Device \<Rightarrow> Device" where
  "json_Device d =
     d\<lparr>DeviceToken := json_string (DeviceToken d), DeviceKey := json_string (DeviceKey d),
       Name := json_string (Name d), Algorithm := json_string (Algorithm d),
       Mode := json_string (Mode d), Padding := json_string (Padding d),
       EncodeKey := json_string (EncodeKey d), IV := json_string (IV d),
       Status := json_string (Status d)\<rparr>"

definition json_NoticeLog :: "NoticeLog \<Rightarrow> NoticeLog" where
  "json_NoticeLog l =
     l\<lparr>log_DeviceKey := json_string (log_DeviceKey l), log_URL := json_string (log_URL l),
       log_Title := json_string (log_Title l), log_Body := json_string (log_Body l),
       log_Group := json_string (log_Group l), log_Result := json_string (log_Result l),
       log_Status := json_string (log_Status l)\<rparr>"

text \<open>
  \<^verbatim>\<open>UpsertDevice\<close> stamps the record it was given and puts its JSON form under the
  bytes of the record's own token. The caller sees the stamped record through its
  pointer, so it is returned as it is in memory.
\<close>

definition UpsertDevice :: "store \<Rightarrow> string option \<Rightarrow> int \<Rightarrow> Device \<Rightarrow> (error + Device) \<times> store" where
  "UpsertDevice s fault now device =
     (case fault of
        Some m \<Rightarrow> (Inl (ErrStore m), s)
      | None \<Rightarrow>
          (let device' = device\<lparr>CreatedAt := (if IsZero (CreatedAt device) then now
                                               else CreatedAt device),
                                  UpdatedAt := now\<rparr>
           in (Inr device',
               s\<lparr>devices := bucket_put (DeviceToken device') (json_Device device')
                                       (devices s)\<rparr>)))"

text \<open>
  \<^verbatim>\<open>AppendNoticeLog\<close> stamps the entry, takes the next sequence number as its id and puts
  its JSON form at the end of the log bucket. A failure leaves the store as it was.
\<close>

definition AppendNoticeLog :: "store \<Rightarrow> string option \<Rightarrow> int \<Rightarrow> NoticeLog \<Rightarrow> error option \<times> store" where
  "AppendNoticeLog s fault now entry =
     (case fault of
        Some m \<Rightarrow> (Some (ErrStore m), s)
      | None \<Rightarrow>
          (let id = Suc (seq s);
               entry' = entry\<lparr>log_CreatedAt := (if IsZero (log_CreatedAt entry) then now
                                                  else log_CreatedAt entry),
                                log_UpdatedAt := now, log_ID := id\<rparr>
           in (None, s\<lparr>logs := logs s @ [json_NoticeLog entry'], seq := id\<rparr>)))"

definition ListNoticeLogs :: "store \<Rightarrow> string option \<Rightarrow> error + NoticeLog list" where
  "ListNoticeLogs s fault =
     (case fault of Some m \<Rightarrow> Inl (ErrStore m) | None \<Rightarrow> Inr (logs s))"

section \<open>internal/service/device_service.go\<close>

record DeviceRequest =
  req_DeviceToken :: string
  req_DeviceKey :: string
  req_Name :: string
  req_Algorithm :: string
  req_Mode :: string
  req_Padding :: string
  req_EncodeKey :: string
  req_IV :: string
  req_Status :: string
  req_RegisterKey :: string

text \<open>
  What \<^verbatim>\<open>Upsert\<close> receives from outside the program: the failures of its two store
  operations, the bytes the entropy source delivers, the answer of the upstream to
  \<^verbatim>\<open>Register\<close> (an error message, \<^verbatim>\<open>nil\<close>, or the registration data) and the clock.
\<close>

record upsert_env =
  get_fault :: "string option"
  put_fault :: "string option"
  entropy :: "byte list"
  register :: "string \<Rightarrow> string \<Rightarrow> string + RegisterData option"
  now :: int

fun firstNonEmpty :: "string list \<Rightarrow> string" where
  "firstNonEmpty [] = []"
| "firstNonEmpty (v # vs) = (if TrimSpace v \<noteq> [] then v else firstNonEmpty vs)"

definition isValidKeyLength :: "string \<Rightarrow> bool" where
  "isValidKeyLength key = (let l = length key in l = 16 \<or> l = 24 \<or> l = 32)"

text \<open>
  \<^verbatim>\<open>Upsert\<close> in the order of its statements. First the record is loaded: a missing
  record is replaced by a new one that carries the token of the request, any other
  failure ends the call.
\<close>

definition load_device :: "store \<Rightarrow> upsert_env \<Rightarrow> DeviceRequest \<Rightarrow> error + Device" where
  "load_device s env req =
     (case GetDevice s (get_fault env) (req_DeviceToken req) of
        Inl e \<Rightarrow>
          (if e \<noteq> ErrNotFound then Inl e
           else Inr \<lparr>DeviceToken = req_DeviceToken req, DeviceKey = [], Name = [],
                     Algorithm = [], Mode = [], Padding = [], EncodeKey = [], IV = [],
                     Status = [], CreatedAt = 0, UpdatedAt = 0\<rparr>)
      | Inr device \<Rightarrow> Inr device)"

text \<open>The descriptive fields are assigned from the request.\<close>

definition assign_fields :: "CryptoConfig \<Rightarrow> DeviceRequest \<Rightarrow> Device \<Rightarrow> Device" where
  "assign_fields cfg req device =
     device\<lparr>Name := req_Name req,
            Status := firstNonEmpty [ToUpper (req_Status req), DeviceStatusActive],
            Algorithm := firstNonEmpty [req_Algorithm req, DefaultAlgorithm cfg],
            Mode := firstNonEmpty [req_Mode req, DefaultMode cfg],
            Padding := firstNonEmpty [req_Padding req, DefaultPadding cfg]\<rparr>"

text \<open>
  The secret and the IV: the value of the request if it has one, else the value of the
  record if it has one, else a generated one. The entropy left over is passed on.
\<close>

definition merge_EncodeKey ::
  "CryptoConfig \<Rightarrow> DeviceRequest \<Rightarrow> byte list \<Rightarrow> Device \<Rightarrow> error + Device \<times> byte list" where
  "merge_EncodeKey cfg req rnd device =
     (if req_EncodeKey req = [] then
        (if EncodeKey device = [] then
           (case GenerateString rnd (KeyBytes cfg) of
              (Inl e, rnd') \<Rightarrow> Inl (ErrGenerate e)
            | (Inr generated, rnd') \<Rightarrow> Inr (device\<lparr>EncodeKey := generated\<rparr>, rnd'))
         else Inr (device, rnd))
      else Inr (device\<lparr>EncodeKey := req_EncodeKey req\<rparr>, rnd))"

definition merge_IV ::
  "CryptoConfig \<Rightarrow> DeviceRequest \<Rightarrow> byte list \<Rightarrow> Device \<Rightarrow> error + Device \<times> byte list" where
  "merge_IV cfg req rnd device =
     (if req_IV req = [] then
        (if IV device = [] then
           (case GenerateString rnd (IVBytes cfg) of
              (Inl e, rnd') \<Rightarrow> Inl (ErrGenerate e)
            | (Inr generated, rnd') \<Rightarrow> Inr (device\<lparr>IV := generated\<rparr>, rnd'))
         else Inr (device, rnd))
      else Inr (device\<lparr>IV := req_IV req\<rparr>, rnd))"

definition merge_request ::
  "CryptoConfig \<Rightarrow> DeviceRequest \<Rightarrow> byte list \<Rightarrow> Device \<Rightarrow> error + Device" where
  "merge_request cfg req rnd device =
     (case merge_EncodeKey cfg req rnd (assign_fields cfg req device) of
        Inl e \<Rightarrow> Inl e
      | Inr (d1, rnd1) \<Rightarrow>
          (case merge_IV cfg req rnd1 d1 of
             Inl e \<Rightarrow> Inl e
           | Inr (d2, rnd2) \<Rightarrow>
               Inr (if req_DeviceKey req \<noteq> [] then d2\<lparr>DeviceKey := req_DeviceKey req\<rparr>
                    else d2)))"

text \<open>The length checks on the merged record.\<close>

definition check_lengths :: "CryptoConfig \<Rightarrow> Device \<Rightarrow> error option" where
  "check_lengths cfg device =
     (if \<not> isValidKeyLength (EncodeKey device) then Some ErrEncodeKeyLength
      else if int (length (IV device)) \<noteq> IVBytes cfg then Some (ErrIVLength (IVBytes cfg))
      else None)"

text \<open>A record without a delivery key gets one from the upstream.\<close>

definition ensure_DeviceKey ::
  "Client option \<Rightarrow> upsert_env \<Rightarrow> DeviceRequest \<Rightarrow> Device \<Rightarrow> error + Device" where
  "ensure_DeviceKey bark env req device =
     (if DeviceKey device = [] then
        (if bark = None then Inl ErrBarkNotConfiguredRegister
         else (case register env (req_DeviceToken req) (req_RegisterKey req) of
                 Inl m \<Rightarrow> Inl (ErrUpstream m)
               | Inr None \<Rightarrow> Inl ErrRegisterEmptyKey
               | Inr (Some data) \<Rightarrow>
                   (if rd_DeviceKey data = [] then Inl ErrRegisterEmptyKey
                    else Inr (device\<lparr>DeviceKey := rd_DeviceKey data\<rparr>))))
      else Inr device)"

definition Upsert ::
  "CryptoConfig \<Rightarrow> Client option \<Rightarrow> upsert_env \<Rightarrow> DeviceRequest \<Rightarrow> store
     \<Rightarrow> (error + Device) \<times> store" where
  "Upsert cfg bark env req s =
     (if TrimSpace (req_DeviceToken req) = [] then (Inl ErrDeviceTokenRequired, s)
      else case load_device s env req of
        Inl e \<Rightarrow> (Inl e, s)
      | Inr device \<Rightarrow>
          (case merge_request cfg req (entropy env) device of
             Inl e \<Rightarrow> (Inl e, s)
           | Inr merged \<Rightarrow>
               (case check_lengths cfg merged of
                  Some e \<Rightarrow> (Inl e, s)
                | None \<Rightarrow>
                    (case ensure_DeviceKey bark env req merged of
                       Inl e \<Rightarrow> (Inl e, s)
                     | Inr keyed \<Rightarrow> UpsertDevice s (put_fault env) (now env) keyed))))"

text \<open>The record that the bucket holds under a token.\<close>

definition stored :: "store \<Rightarrow> string \<Rightarrow> Device option" where
  "stored s token = map_of (devices s) token"

text \<open>The two errors of the length checks are the invalid-credential errors.\<close>

definition InvalidCredential :: "error \<Rightarrow> bool" where
  "InvalidCredential e = (case e of ErrEncodeKeyLength \<Rightarrow> True | ErrIVLength n \<Rightarrow> True | _ \<Rightarrow> False)"

section \<open>internal/service/notice_service.go\<close>

text \<open>
  What \<^verbatim>\<open>Broadcast\<close> receives from outside the program. The failures of the store
  operations are given per call: for the listing, for the lookup of the \<open>i\<close>-th key
  and for the log entry of the \<open>i\<close>-th target, whose time stamp is \<open>log_time i\<close>.
  \<open>marshal\<close> is \<^verbatim>\<open>json.Marshal\<close> on the payload, \<open>cipher\<close> the AES block cipher and
  \<open>push\<close> the answer of the upstream to the push for the \<open>i\<close>-th target: an error
  message, \<^verbatim>\<open>nil\<close>, or the response.

  One goroutine runs per target. The order in which they reach the log bucket and the
  order in which they reach the lock around the results are decided by the scheduler:
  \<open>log_order\<close> and \<open>result_order\<close> are its choices, read by \<open>interleave\<close>.
\<close>

record broadcast_env =
  list_fault :: "string option"
  lookup_fault :: "nat \<Rightarrow> string option"
  append_fault :: "nat \<Rightarrow> string option"
  log_time :: "nat \<Rightarrow> int"
  marshal :: "(string \<times> string) list \<Rightarrow> byte list"
  cipher :: "byte list \<Rightarrow> byte list \<Rightarrow> byte list"
  push :: "nat \<Rightarrow> string \<Rightarrow> string \<Rightarrow> string \<Rightarrow> string + PushResponse option"
  log_order :: "nat list"
  result_order :: "nat list"

text \<open>
  Each choice of the scheduler picks one of the goroutines that have not yet passed;
  when the choices run out the rest pass in the order in which they were started.
\<close>

function interleave :: "nat list \<Rightarrow> 'a list \<Rightarrow> 'a list" where
  "interleave picks xs =
     (if xs = [] then []
      else case picks of
             [] \<Rightarrow> xs
           | p # ps \<Rightarrow> xs ! (p mod length xs)
                       # interleave ps (take (p mod length xs) xs @ drop (Suc (p mod length xs)) xs))"
  by pat_completeness auto
termination
proof (relation "measure (\<lambda>(picks, xs). length xs)", goal_cases)
  case 1
  show ?case by simp
next
  case (2 picks xs p ps)
  then have "p mod length xs < length xs" by simp
  then show ?case by simp
qed

declare interleave.simps [simp del]

definition crypto_error_string :: "crypto_error \<Rightarrow> string" where
  "crypto_error_string e =
     (case e of
        KeySizeError n \<Rightarrow> ''crypto/aes: invalid key size '' @ Itoa (int n)
      | KeyMustBe16_24_32 \<Rightarrow> ''key must be 16, 24 or 32 bytes''
      | IvMustBe16 \<Rightarrow> ''iv must be 16 bytes'')"

definition failed_result :: "string \<Rightarrow> string \<Rightarrow> NoticeResult" where
  "failed_result key msg = \<lparr>res_DeviceKey = key, res_Status = ''FAILED'', res_Message = msg\<rparr>"

text \<open>The loop of \<^verbatim>\<open>pickTargets\<close> over the keys; \<open>i\<close> is the index of the first key.\<close>

fun resolve_keys ::
  "store \<Rightarrow> (nat \<Rightarrow> string option) \<Rightarrow> nat \<Rightarrow> string list \<Rightarrow> Device list \<times> NoticeResult list" where
  "resolve_keys s fault i [] = ([], [])"
| "resolve_keys s fault i (key # keys) =
     (let (ds, rs) = resolve_keys s fault (Suc i) keys
      in case GetDeviceByKey s (fault i) key of
           Inl e \<Rightarrow> (ds, failed_result key (error_string e) # rs)
         | Inr device \<Rightarrow> (device # ds, rs))"

definition pickTargets ::
  "store \<Rightarrow> broadcast_env \<Rightarrow> string list \<Rightarrow> Device list \<times> NoticeResult list" where
  "pickTargets s env deviceKeys =
     (if deviceKeys = [] then
        (case ListActiveDevices s (list_fault env) of
           Inl e \<Rightarrow> ([], [failed_result [] (''list devices: '' @ error_string e)])
         | Inr list \<Rightarrow> (list, []))
      else resolve_keys s (lookup_fault env) 0 deviceKeys)"

definition build_payload :: "NoticeRequest \<Rightarrow> (string \<times> string) list" where
  "build_payload req =
     [(''title'', Title req), (''subtitle'', Subtitle req), (''body'', Body req),
      (''group'', Group req), (''url'', Url req)]
     @ (if TrimSpace (Icon req) \<noteq> [] then [(''icon'', Icon req)] else [])
     @ (if TrimSpace (Image req) \<noteq> [] then [(''image'', Image req)] else [])"

definition encryptPayload ::
  "broadcast_env \<Rightarrow> (string \<times> string) list \<Rightarrow> Device \<Rightarrow> crypto_error + string" where
  "encryptPayload env payload device =
     EncryptToBase64 (cipher env) (marshal env payload)
       (bytes_of (EncodeKey device)) (bytes_of (IV device))"

text \<open>
  The body of a goroutine up to the lock: the result for its target. In each of its
  three branches the log entry is written with the status and the message of the result.
\<close>

definition deliver ::
  "broadcast_env \<Rightarrow> (string \<times> string) list \<Rightarrow> nat \<Rightarrow> Device \<Rightarrow> NoticeResult" where
  "deliver env payload i device =
     (case encryptPayload env payload device of
        Inl e \<Rightarrow> failed_result (DeviceKey device) (crypto_error_string e)
      | Inr ciphertext \<Rightarrow>
          (case push env i (DeviceKey device) ciphertext (IV device) of
             Inl m \<Rightarrow> failed_result (DeviceKey device) m
           | Inr None \<Rightarrow> failed_result (DeviceKey device) []
           | Inr (Some resp) \<Rightarrow>
               \<lparr>res_DeviceKey = DeviceKey device,
                res_Status = (if Code resp = 200 then ''SUCCESS'' else ''FAILED''),
                res_Message = Message resp\<rparr>))"

definition appendLog ::
  "Client \<Rightarrow> broadcast_env \<Rightarrow> NoticeRequest \<Rightarrow> (nat \<times> Device \<times> NoticeResult) \<Rightarrow> store \<Rightarrow> store" where
  "appendLog client env req job s =
     (case job of (i, device, r) \<Rightarrow>
        snd (AppendNoticeLog s (append_fault env i) (log_time env i)
               \<lparr>log_ID = 0, log_DeviceKey = DeviceKey device,
                log_URL = DeviceEndpoint client (DeviceKey device),
                log_Title = Title req, log_Body = Body req, log_Group = Group req,
                log_Result = res_Message r, log_Status = res_Status r,
                log_CreatedAt = 0, log_UpdatedAt = 0\<rparr>))"

text \<open>Under the lock a goroutine counts its success and appends its result.\<close>

definition collect :: "NoticeResult \<Rightarrow> NoticeResult list \<times> nat \<Rightarrow> NoticeResult list \<times> nat" where
  "collect r acc =
     (case acc of (results, successNum) \<Rightarrow>
        (results @ [r], if res_Status r = ''SUCCESS'' then Suc successNum else successNum))"

definition jobs ::
  "broadcast_env \<Rightarrow> NoticeRequest \<Rightarrow> Device list \<Rightarrow> (nat \<times> Device \<times> NoticeResult) list" where
  "jobs env req targets =
     map (\<lambda>(i, device). (i, device, deliver env (build_payload req) i device))
         (enumerate 0 targets)"

definition Broadcast ::
  "Client option \<Rightarrow> broadcast_env \<Rightarrow> NoticeRequest \<Rightarrow> store
     \<Rightarrow> (NoticeSummary \<times> NoticeResult list \<times> error option) \<times> store" where
  "Broadcast bark env req s =
     (if TrimSpace (Body req) = [] then
        ((\<lparr>SendNum = 0, SuccessNum = 0\<rparr>, [], Some ErrBodyRequired), s)
      else case bark of
        None \<Rightarrow> ((\<lparr>SendNum = 0, SuccessNum = 0\<rparr>, [], Some ErrBarkNotConfigured), s)
      | Some client \<Rightarrow>
          (case pickTargets s env (DeviceKeys req) of (targets, lookupFailures) \<Rightarrow>
             if length targets = 0 then
               ((\<lparr>SendNum = 0, SuccessNum = 0\<rparr>, lookupFailures, Some ErrNoTargets), s)
             else
               (let js = jobs env req targets;
                    s' = fold (appendLog client env req) (interleave (log_order env) js) s;
                    (results, successNum) =
                      fold collect (map (\<lambda>j. snd (snd j)) (interleave (result_order env) js))
                           (lookupFailures, 0)
                in ((\<lparr>SendNum = length targets, SuccessNum = successNum\<rparr>, results, None),
                    s'))))"

text \<open>
  The lookups of a list of keys, each on its own: the key, and what \<^verbatim>\<open>GetDeviceByKey\<close>
  returns for it. The devices found and the failed results of the keys not found are
  read off this list.
\<close>

definition lookups :: "store \<Rightarrow> broadcast_env \<Rightarrow> nat \<Rightarrow> string list \<Rightarrow> (string \<times> (error + Device)) list" where
  "lookups s env i keys =
     map (\<lambda>(j, key). (key, GetDeviceByKey s (lookup_fault env j) key)) (enumerate i keys)"

fun found :: "(string \<times> (error + Device)) list \<Rightarrow> Device list" where
  "found [] = []"
| "found ((key, Inr device) # ls) = device # found ls"
| "found ((key, Inl e) # ls) = found ls"

fun not_found :: "(string \<times> (error + Device)) list \<Rightarrow> NoticeResult list" where
  "not_found [] = []"
| "not_found ((key, Inr device) # ls) = not_found ls"
| "not_found ((key, Inl e) # ls) = failed_result key (error_string e) # not_found ls"

text \<open>The test of \<^verbatim>\<open>ListActiveDevices\<close>, written out.\<close>

definition counts_as_active :: "Device \<Rightarrow> bool" where
  "counts_as_active d =
     (ToUpper (TrimSpace (Status d)) = [] \<or> ToUpper (TrimSpace (Status d)) = ''ACTIVE'')"

section \<open>internal/service/notice_log_service.go\<close>

definition log_matches :: "NoticeLogFilter \<Rightarrow> NoticeLog \<Rightarrow> bool" where
  "log_matches flt entry =
     (\<not> (f_DeviceKey flt \<noteq> [] \<and> \<not> EqualFold (log_DeviceKey entry) (f_DeviceKey flt))
      \<and> \<not> (f_Group flt \<noteq> [] \<and> \<not> EqualFold (log_Group entry) (f_Group flt))
      \<and> \<not> (f_Status flt \<noteq> [] \<and> \<not> EqualFold (log_Status entry) (f_Status flt))
      \<and> (case BeginTime flt of None \<Rightarrow> True | Some b \<Rightarrow> \<not> log_CreatedAt entry < b)
      \<and> (case EndTime flt of None \<Rightarrow> True | Some e \<Rightarrow> \<not> log_CreatedAt entry > e))"

text \<open>
  \<^verbatim>\<open>sort.Slice\<close> puts the newest entry first. It is not a stable sort: the standard
  library does not fix the order of entries with equal time stamps. Here an entry is
  inserted behind those that are not older.
\<close>

fun insert_newest :: "NoticeLog \<Rightarrow> NoticeLog list \<Rightarrow> NoticeLog list" where
  "insert_newest x [] = [x]"
| "insert_newest x (y # ys) =
     (if log_CreatedAt x > log_CreatedAt y then x # y # ys else y # insert_newest x ys)"

definition sort_newest :: "NoticeLog list \<Rightarrow> NoticeLog list" where
  "sort_newest xs = foldr insert_newest xs []"

definition filteredLogs :: "store \<Rightarrow> string option \<Rightarrow> NoticeLogFilter \<Rightarrow> error + NoticeLog list" where
  "filteredLogs s fault flt =
     (case ListNoticeLogs s fault of
        Inl e \<Rightarrow> Inl e
      | Inr all \<Rightarrow> Inr (sort_newest (filter (log_matches flt) all)))"

text \<open>
  The arithmetic of a 64-bit \<^verbatim>\<open>int\<close>: the result of an operation is reduced to the range
  from \<open>- 2 ^ 63\<close> to \<open>2 ^ 63 - 1\<close>, and division truncates towards zero.
\<close>

definition wrap64 :: "int \<Rightarrow> int" where
  "wrap64 x = (x + 2 ^ 63) mod 2 ^ 64 - 2 ^ 63"

definition go_div :: "int \<Rightarrow> int \<Rightarrow> int" where
  "go_div a b = sgn a * sgn b * (\<bar>a\<bar> div \<bar>b\<bar>)"

text \<open>
  \<^verbatim>\<open>Query\<close> returns an error of the store, or panics at the slice expression
  \<^verbatim>\<open>logs[start:end]\<close> when its bounds are not in order (\<open>0 \<le> start \<le> end \<le> cap\<close>, where
  the capacity of the slice is the number of all log entries), or returns the page.
\<close>

datatype query_failure = QueryError error | SliceBoundsPanic int int

definition clampPageSize :: "int \<Rightarrow> int" where
  "clampPageSize n =
     (let n1 = (if n \<le> 0 then 10 else n) in if n1 > 100 then 100 else n1)"

definition clampPage :: "int \<Rightarrow> int" where
  "clampPage p = (if p \<le> 0 then 1 else p)"

definition slice_bounds :: "int \<Rightarrow> int \<Rightarrow> int \<Rightarrow> int \<times> int" where
  "slice_bounds cnt page pageSize =
     (let start0 = wrap64 (wrap64 (page - 1) * pageSize);
          start = (if start0 > cnt then cnt else start0);
          end0 = wrap64 (start + pageSize);
          end = (if end0 > cnt then cnt else end0)
      in (start, end))"

definition Query :: "store \<Rightarrow> string option \<Rightarrow> NoticeLogFilter \<Rightarrow> query_failure + NoticeLogPage" where
  "Query s fault flt =
     (case filteredLogs s fault flt of
        Inl e \<Rightarrow> Inl (QueryError e)
      | Inr matched \<Rightarrow>
          (let cnt = int (length matched);
               pageSize = clampPageSize (PageSize flt);
               page = clampPage (Page flt)
           in case slice_bounds cnt page pageSize of (start, end) \<Rightarrow>
                if \<not> (0 \<le> start \<and> start \<le> end \<and> end \<le> int (length (logs s)))
                then Inl (SliceBoundsPanic start end)
                else Inr \<lparr>Data = take (nat (end - start)) (drop (nat start) matched),
                          Total = cnt,
                          Pages = go_div (wrap64 (wrap64 (cnt + pageSize) - 1)) pageSize,
                          PageNum = page,
                          page_PageSize = pageSize\<rparr>))"

section \<open>Example inputs\<close>

text \<open>A block cipher for the examples: the block is XORed with the first 16 key bytes.\<close>

definition xor_cipher :: "byte list \<Rightarrow> byte list \<Rightarrow> byte list" where
  "xor_cipher key block = xor_block (take 16 key) block"

definition cfg0 :: CryptoConfig where
  "cfg0 = \<lparr>DefaultAlgorithm = ''AES'', DefaultMode = ''CBC'',
           DefaultPadding = ''PKCS7Padding'', KeyBytes = 32, IVBytes = 16\<rparr>"

definition empty_store :: store where
  "empty_store = \<lparr>devices = [], logs = [], seq = 0\<rparr>"

text \<open>
  An environment in which the store works, the entropy source delivers the bytes 0 to
  63 and the upstream registers every token under the key \<open>key-\<close> followed by the token.
\<close>

definition env0 :: upsert_env where
  "env0 = \<lparr>get_fault = None, put_fault = None, entropy = map of_nat [0..<64],
           register = (\<lambda>token key. Inr (Some \<lparr>rd_Key = key, rd_DeviceKey = ''key-'' @ token,
                                                rd_DeviceToken = token\<rparr>)),
           now = 1000\<rparr>"

definition client0 :: Client where
  "client0 = \<lparr>baseURL = ''http://127.0.0.1:8080/''\<rparr>"

text \<open>A request that names a token and a delivery key and leaves every other field empty.\<close>

definition request_for :: "string \<Rightarrow> string \<Rightarrow> DeviceRequest" where
  "request_for token key =
     \<lparr>req_DeviceToken = token, req_DeviceKey = key, req_Name = [], req_Algorithm = [],
      req_Mode = [], req_Padding = [], req_EncodeKey = [], req_IV = [], req_Status = [],
      req_RegisterKey = []\<rparr>"

text \<open>A stored device with a 16-byte secret and IV.\<close>

definition device_of :: "string \<Rightarrow> string \<Rightarrow> string \<Rightarrow> string \<Rightarrow> Device" where
  "device_of token key name status =
     \<lparr>DeviceToken = token, DeviceKey = key, Name = name, Algorithm = ''AES'', Mode = ''CBC'',
      Padding = ''PKCS7Padding'', EncodeKey = ''0123456789abcdef'', IV = ''fedcba9876543210'',
      Status = status, CreatedAt = 500, UpdatedAt = 500\<rparr>"


definition store_of :: "(string \<times> Device) list \<Rightarrow> store" where
  "store_of ds = \<lparr>devices = ds, logs = [], seq = 0\<rparr>"

text \<open>A device bucket with two records.\<close>

definition two_devices :: store where
  "two_devices =
     store_of [(''tok-a'', device_of ''tok-a'' ''key-a'' ''Alpha'' ''ACTIVE''),
               (''tok-b'', device_of ''tok-b'' ''key-b'' ''Beta'' ''ACTIVE'')]"

text \<open>
  The record that \<^verbatim>\<open>RegisterDevice\<close> writes for a token that the upstream has
  registered: token, delivery key and status, no secret and no IV. The bucket
  \<open>registered_and_configured\<close> holds such a record for \<open>tok-a\<close> and a record with secret
  and IV for \<open>tok-b\<close>.
\<close>

definition registered_only :: "string \<Rightarrow> string \<Rightarrow> Device" where
  "registered_only token key =
     \<lparr>DeviceToken = token, DeviceKey = key, Name = [], Algorithm = [], Mode = [],
      Padding = [], EncodeKey = [], IV = [], Status = ''ACTIVE'', CreatedAt = 400,
      UpdatedAt = 400\<rparr>"

definition registered_and_configured :: store where
  "registered_and_configured =
     store_of [(''tok-a'', registered_only ''tok-a'' ''key-a''),
               (''tok-b'', device_of ''tok-b'' ''key-b'' ''Beta'' ''ACTIVE'')]"

text \<open>
  An environment for \<^verbatim>\<open>Broadcast\<close>: the store works, the payload is written as
  \<open>key=value;\<close> pairs, the upstream accepts the pushes for \<open>key-a\<close> and answers every
  other push with a failure, and the second goroutine reaches the lock first.
\<close>

definition benv0 :: broadcast_env where
  "benv0 =
     \<lparr>list_fault = None, lookup_fault = (\<lambda>i. None), append_fault = (\<lambda>i. None),
      log_time = (\<lambda>i. 2000 + int i),
      marshal = (\<lambda>kvs. bytes_of (concat (map (\<lambda>(k, v). k @ ''='' @ v @ '';'') kvs))),
      cipher = xor_cipher,
      push = (\<lambda>i key ciphertext iv.
                if key = ''key-a'' then Inr (Some \<lparr>Code = 200, Message = ''success''\<rparr>)
                else Inl ''push http status 500 Internal Server Error''),
      log_order = [], result_order = [1]\<rparr>"

definition notice :: "string \<Rightarrow> string list \<Rightarrow> NoticeRequest" where
  "notice body keys =
     \<lparr>Title = ''Hello'', Subtitle = [], Body = body, Group = ''demo'', Url = [], Icon = [],
      Image = [], DeviceKeys = keys\<rparr>"

text \<open>A bucket whose records have the statuses empty, \<open>ACTIVE\<close> between blanks, and \<open>STOP\<close>.\<close>

definition mixed_status :: store where
  "mixed_status =
     store_of [(''tok-a'', device_of ''tok-a'' ''key-a'' ''Alpha'' []),
               (''tok-b'', device_of ''tok-b'' ''key-b'' ''Beta'' '' ACTIVE ''),
               (''tok-c'', device_of ''tok-c'' ''key-c'' ''Gamma'' ''STOP'')]"

text \<open>
  A log bucket with the entries 1 to \<open>n\<close>, entry \<open>i\<close> created at time \<open>i\<close>, and a filter
  that selects every entry and asks for a page.
\<close>

definition log_entry :: "nat \<Rightarrow> NoticeLog" where
  "log_entry i =
     \<lparr>log_ID = i, log_DeviceKey = ''key-a'', log_URL = ''http://127.0.0.1:8080/key-a'',
      log_Title = ''Hello'', log_Body = ''hi'', log_Group = ''demo'', log_Result = ''success'',
      log_Status = ''SUCCESS'', log_CreatedAt = int i, log_UpdatedAt = int i\<rparr>"

definition log_store :: "nat \<Rightarrow> store" where
  "log_store n = \<lparr>devices = [], logs = map log_entry [1..<Suc n], seq = n\<rparr>"

definition page_filter :: "int \<Rightarrow> int \<Rightarrow> NoticeLogFilter" where
  "page_filter page pageSize =
     \<lparr>f_DeviceKey = [], f_Group = [], f_Status = [], BeginTime = None, EndTime = None,
      Page = page, PageSize = pageSize\<rparr>"

section \<open>Properties of the cipher step\<close>

lemma bytesRepeat_replicate: "bytesRepeat b n = replicate n b"
  by (induction n) simp_all

lemma pkcs7Pad_length:
  "0 < k \<Longrightarrow> length (pkcs7Pad data k) mod k = 0"
proof -
  assume k: "0 < k"
  define n where "n = length data"
  have lt: "n mod k < k" using k by simp
  have "n div k * k + n mod k = n" by (rule div_mult_mod_eq)
  with lt have "n + (k - n mod k) = n div k * k + k" by arith
  then have "(n + (k - n mod k)) mod k = 0" by simp
  then show ?thesis
    by (simp add: pkcs7Pad_def Let_def bytesRepeat_replicate n_def)
qed

lemma pkcs7Pad_eq:
  "pkcs7Pad data 16 = data @ replicate (16 - length data mod 16) (of_nat (16 - length data mod 16))"
  by (simp add: pkcs7Pad_def Let_def bytesRepeat_replicate)

text \<open>
  Claim C4. \<^verbatim>\<open>EncryptToBase64\<close> fails for every key whose length is not 16, 24 or 32
  and for every IV whose length is not 16. For every plaintext and every valid key and
  IV it returns the standard base64 encoding of the CBC encryption of the plaintext
  padded by PKCS#7 to the block size of 16: between 1 and 16 bytes are appended, each
  equal to their number, and the padded length is a multiple of 16. The result is
  given by the plaintext, the key and the IV alone, so repeated calls with the same
  three values return the same ciphertext.
\<close>

theorem EncryptToBase64_contract:
  "(length key \<notin> {16, 24, 32} \<longrightarrow> isl (EncryptToBase64 blk plaintext key iv))
   \<and> (length iv \<noteq> 16 \<longrightarrow> isl (EncryptToBase64 blk plaintext key iv))
   \<and> (length key \<in> {16, 24, 32} \<and> length iv = 16 \<longrightarrow>
        (let n = 16 - length plaintext mod 16;
             padded = plaintext @ replicate n (of_nat n)
         in 1 \<le> n \<and> n \<le> 16 \<and> length padded mod 16 = 0
            \<and> EncryptToBase64 blk plaintext key iv
                = Inr (EncodeToString (CryptBlocks (blk key) iv padded))))"
proof (intro conjI impI)
  assume "length key \<notin> {16, 24, 32}"
  then show "isl (EncryptToBase64 blk plaintext key iv)"
    by (simp add: EncryptToBase64_def)
next
  assume "length iv \<noteq> 16"
  then show "isl (EncryptToBase64 blk plaintext key iv)"
    by (simp add: EncryptToBase64_def aes_BlockSize_def Let_def)
next
  assume ok: "length key \<in> {16, 24, 32} \<and> length iv = 16"
  have len: "length (pkcs7Pad plaintext 16) mod 16 = 0"
    by (rule pkcs7Pad_length) simp
  have "length plaintext mod 16 < 16" by simp
  then have n: "1 \<le> 16 - length plaintext mod 16" "16 - length plaintext mod 16 \<le> 16"
    by arith+
  from ok have "EncryptToBase64 blk plaintext key iv
      = Inr (EncodeToString (CryptBlocks (blk key) iv (pkcs7Pad plaintext 16)))"
    by (auto simp: EncryptToBase64_def aes_BlockSize_def Let_def)
  with len n show "let n = 16 - length plaintext mod 16;
             padded = plaintext @ replicate n (of_nat n)
         in 1 \<le> n \<and> n \<le> 16 \<and> length padded mod 16 = 0
            \<and> EncryptToBase64 blk plaintext key iv
                = Inr (EncodeToString (CryptBlocks (blk key) iv padded))"
    unfolding pkcs7Pad_eq Let_def by simp
qed

theorem EncryptToBase64_contract_witness:
  "length (bytes_of ''0123456789abcde'') \<notin> {16, 24, 32}
   \<and> isl (EncryptToBase64 xor_cipher (bytes_of ''hi'') (bytes_of ''0123456789abcde'')
              (bytes_of ''fedcba9876543210''))
   \<and> length (bytes_of ''fedcba987654321'') \<noteq> 16
   \<and> isl (EncryptToBase64 xor_cipher (bytes_of ''hi'') (bytes_of ''0123456789abcdef'')
              (bytes_of ''fedcba987654321''))
   \<and> length (bytes_of ''0123456789abcdef'') \<in> {16, 24, 32}
   \<and> length (bytes_of ''fedcba9876543210'') = 16
   \<and> EncryptToBase64 xor_cipher (bytes_of ''hi'') (bytes_of ''0123456789abcdef'')
         (bytes_of ''fedcba9876543210'')
       = Inr (EncodeToString (CryptBlocks (xor_cipher (bytes_of ''0123456789abcdef''))
               (bytes_of ''fedcba9876543210'') (bytes_of ''hi'' @ replicate 14 (of_nat 14))))
   \<and> EncryptToBase64 xor_cipher (bytes_of ''hi'') (bytes_of ''0123456789abcdef'')
         (bytes_of ''fedcba9876543210'') = Inr ''Pj1YXlhaAQEBAVpYXlhaWA==''"
proof -
  have k: "length (bytes_of ''0123456789abcde'') \<notin> {16, 24, 32}"
    by (simp add: bytes_of_def)
  have i: "length (bytes_of ''fedcba987654321'') \<noteq> 16"
    by (simp add: bytes_of_def)
  have ok: "length (bytes_of ''0123456789abcdef'') \<in> {16, 24, 32}
            \<and> length (bytes_of ''fedcba9876543210'') = 16"
    by (simp add: bytes_of_def)
  have p: "16 - length (bytes_of ''hi'') mod 16 = 14"
    by (simp add: bytes_of_def)
  have v: "EncryptToBase64 xor_cipher (bytes_of ''hi'') (bytes_of ''0123456789abcdef'')
             (bytes_of ''fedcba9876543210'') = Inr ''Pj1YXlhaAQEBAVpYXlhaWA==''"
    by code_simp
  note c1 = EncryptToBase64_contract [where key = "bytes_of ''0123456789abcde''"
      and blk = xor_cipher and plaintext = "bytes_of ''hi''"
      and iv = "bytes_of ''fedcba9876543210''"]
  note c2 = EncryptToBase64_contract [where key = "bytes_of ''0123456789abcdef''"
      and blk = xor_cipher and plaintext = "bytes_of ''hi''"
      and iv = "bytes_of ''fedcba987654321''"]
  note c3 = EncryptToBase64_contract [where key = "bytes_of ''0123456789abcdef''"
      and blk = xor_cipher and plaintext = "bytes_of ''hi''"
      and iv = "bytes_of ''fedcba9876543210''"]
  from c1 k have r1: "isl (EncryptToBase64 xor_cipher (bytes_of ''hi'')
      (bytes_of ''0123456789abcde'') (bytes_of ''fedcba9876543210''))" by blast
  from c2 i have r2: "isl (EncryptToBase64 xor_cipher (bytes_of ''hi'')
      (bytes_of ''0123456789abcdef'') (bytes_of ''fedcba987654321''))" by blast
  from c3 ok have "let n = 16 - length (bytes_of ''hi'') mod 16;
             padded = bytes_of ''hi'' @ replicate n (of_nat n)
         in 1 \<le> n \<and> n \<le> 16 \<and> length padded mod 16 = 0
            \<and> EncryptToBase64 xor_cipher (bytes_of ''hi'') (bytes_of ''0123456789abcdef'')
                 (bytes_of ''fedcba9876543210'')
                = Inr (EncodeToString (CryptBlocks (xor_cipher (bytes_of ''0123456789abcdef''))
                        (bytes_of ''fedcba9876543210'') padded))"
    by blast
  then have r3: "EncryptToBase64 xor_cipher (bytes_of ''hi'') (bytes_of ''0123456789abcdef'')
         (bytes_of ''fedcba9876543210'')
       = Inr (EncodeToString (CryptBlocks (xor_cipher (bytes_of ''0123456789abcdef''))
               (bytes_of ''fedcba9876543210'') (bytes_of ''hi'' @ replicate 14 (of_nat 14))))"
    unfolding Let_def p by blast
  from k i ok r1 r2 r3 v show ?thesis by blast
qed

section \<open>Properties of the device registry\<close>

subsection \<open>The steps of \<^verbatim>\<open>Upsert\<close>\<close>


lemma map_of_bucket_put_other: "t \<noteq> k \<Longrightarrow> map_of (bucket_put k v xs) t = map_of xs t"
  by (induction xs) auto

lemma Upsert_Inl_store:
  assumes "Upsert cfg bark env req s = (Inl e, s')"
  shows "s' = s"
  using assms
  by (auto simp: Upsert_def UpsertDevice_def Let_def split: if_splits sum.splits option.splits)












subsection \<open>Secret and IV\<close>

text \<open>
  Claim C3. The device bucket holds a record for \<open>tok-a\<close> that has neither secret nor
  IV, as \<^verbatim>\<open>RegisterDevice\<close> writes it, and a record for \<open>tok-b\<close> with a secret and an IV.
  The request names \<open>tok-b\<close> and omits both. \<^verbatim>\<open>GetDevice\<close> returns the first record
  of the bucket, the one of \<open>tok-a\<close>, so \<^verbatim>\<open>Upsert\<close> finds no secret and no IV and
  generates both, although the stored record of the token of the request holds them.
  The record returned carries the token \<open>tok-a\<close> and the generated secret and IV, not
  those stored for \<open>tok-b\<close>, and is written back under \<open>tok-a\<close>.
\<close>

theorem Upsert_generates_despite_stored_secret:
  "stored registered_and_configured ''tok-b''
     = Some (device_of ''tok-b'' ''key-b'' ''Beta'' ''ACTIVE'')
   \<and> EncodeKey (device_of ''tok-b'' ''key-b'' ''Beta'' ''ACTIVE'') = ''0123456789abcdef''
   \<and> IV (device_of ''tok-b'' ''key-b'' ''Beta'' ''ACTIVE'') = ''fedcba9876543210''
   \<and> req_EncodeKey (request_for ''tok-b'' ''key-b'') = []
   \<and> req_IV (request_for ''tok-b'' ''key-b'') = []
   \<and> GenerateString (entropy env0) (KeyBytes cfg0)
       = (Inr ''abcdefghijklmnopqrstuvwxyzABCDEF'', map of_nat [32..<64])
   \<and> Upsert cfg0 None env0 (request_for ''tok-b'' ''key-b'') registered_and_configured
       = (Inr \<lparr>DeviceToken = ''tok-a'', DeviceKey = ''key-b'', Name = [], Algorithm = ''AES'',
               Mode = ''CBC'', Padding = ''PKCS7Padding'',
               EncodeKey = ''abcdefghijklmnopqrstuvwxyzABCDEF'', IV = ''GHIJKLMNOPQRSTUV'',
               Status = ''ACTIVE'', CreatedAt = 400, UpdatedAt = 1000\<rparr>,
          store_of [(''tok-a'',
                     \<lparr>DeviceToken = ''tok-a'', DeviceKey = ''key-b'', Name = [],
                      Algorithm = ''AES'', Mode = ''CBC'', Padding = ''PKCS7Padding'',
                      EncodeKey = ''abcdefghijklmnopqrstuvwxyzABCDEF'',
                      IV = ''GHIJKLMNOPQRSTUV'', Status = ''ACTIVE'', CreatedAt = 400,
                      UpdatedAt = 1000\<rparr>),
                    (''tok-b'', device_of ''tok-b'' ''key-b'' ''Beta'' ''ACTIVE'')])"
  by code_simp

subsection \<open>Length checks\<close>

text \<open>
  Claim C5. When the token of the request is not blank, the record has been loaded
  and the request has been merged into it, and the merged secret has a length other
  than 16, 24 and 32 or the merged IV has a length other than the configured one, then
  \<^verbatim>\<open>Upsert\<close> returns one of the two invalid-credential errors and the store is the
  store it was called with: nothing is persisted.
\<close>

theorem Upsert_invalid_credential:
  assumes "TrimSpace (req_DeviceToken req) \<noteq> []"
    and "load_device s env req = Inr device"
    and "merge_request cfg req (entropy env) device = Inr merged"
    and "length (EncodeKey merged) \<notin> {16, 24, 32} \<or> int (length (IV merged)) \<noteq> IVBytes cfg"
  shows "\<exists>e. Upsert cfg bark env req s = (Inl e, s) \<and> InvalidCredential e"
proof (cases "isValidKeyLength (EncodeKey merged)")
  case False
  then have "check_lengths cfg merged = Some ErrEncodeKeyLength"
    by (simp add: check_lengths_def)
  with assms(1-3) have "Upsert cfg bark env req s = (Inl ErrEncodeKeyLength, s)"
    by (simp add: Upsert_def)
  then show ?thesis by (simp add: InvalidCredential_def)
next
  case True
  with assms(4) have "int (length (IV merged)) \<noteq> IVBytes cfg"
    by (auto simp: isValidKeyLength_def Let_def)
  with True have "check_lengths cfg merged = Some (ErrIVLength (IVBytes cfg))"
    by (simp add: check_lengths_def)
  with assms(1-3) have "Upsert cfg bark env req s = (Inl (ErrIVLength (IVBytes cfg)), s)"
    by (simp add: Upsert_def)
  then show ?thesis by (simp add: InvalidCredential_def)
qed

theorem Upsert_invalid_credential_witness:
  "TrimSpace (req_DeviceToken ((request_for ''tok-1'' ''key-1'')\<lparr>req_EncodeKey := ''short''\<rparr>)) \<noteq> []
   \<and> Upsert cfg0 None env0 ((request_for ''tok-1'' ''key-1'')\<lparr>req_EncodeKey := ''short''\<rparr>)
        empty_store = (Inl ErrEncodeKeyLength, empty_store)
   \<and> InvalidCredential ErrEncodeKeyLength"
proof -
  let ?req = "(request_for ''tok-1'' ''key-1'')\<lparr>req_EncodeKey := ''short''\<rparr>"
  let ?device = "\<lparr>DeviceToken = ''tok-1'', DeviceKey = [], Name = [], Algorithm = [],
        Mode = [], Padding = [], EncodeKey = [], IV = [], Status = [],
        CreatedAt = 0, UpdatedAt = 0\<rparr>"
  let ?merged = "\<lparr>DeviceToken = ''tok-1'', DeviceKey = ''key-1'', Name = [],
        Algorithm = ''AES'', Mode = ''CBC'', Padding = ''PKCS7Padding'',
        EncodeKey = ''short'', IV = ''abcdefghijklmnop'',
        Status = ''ACTIVE'', CreatedAt = 0, UpdatedAt = 0\<rparr>"
  have h1: "TrimSpace (req_DeviceToken ?req) \<noteq> []" by code_simp
  have h2: "load_device empty_store env0 ?req = Inr ?device" by code_simp
  have h3: "merge_request cfg0 ?req (entropy env0) ?device = Inr ?merged" by code_simp
  have h4: "length (EncodeKey ?merged) \<notin> {16, 24, 32}
            \<or> int (length (IV ?merged)) \<noteq> IVBytes cfg0" by simp
  from Upsert_invalid_credential [OF h1 h2 h3 h4, of None]
  obtain e where e: "Upsert cfg0 None env0 ?req empty_store = (Inl e, empty_store)"
    "InvalidCredential e" by blast
  have "Upsert cfg0 None env0 ?req empty_store = (Inl ErrEncodeKeyLength, empty_store)"
    by code_simp
  with e h1 show ?thesis by simp
qed

subsection \<open>Status\<close>




subsection \<open>The record that \<^verbatim>\<open>Upsert\<close> loads\<close>

text \<open>
  Claim C10. The device bucket holds the records of \<open>tok-a\<close> and \<open>tok-b\<close>, and the
  request names \<open>tok-b\<close> and the new name \<open>Renamed\<close>. \<^verbatim>\<open>GetDevice\<close> returns the first
  record of the bucket, the one of \<open>tok-a\<close>; \<^verbatim>\<open>Upsert\<close> renames that record, gives it
  the delivery key of the request and writes it back under \<open>tok-a\<close>. The record stored
  under \<open>tok-b\<close> keeps the name \<open>Beta\<close>.
\<close>

theorem Upsert_renames_first_record:
  "stored two_devices ''tok-b'' = Some (device_of ''tok-b'' ''key-b'' ''Beta'' ''ACTIVE'')
   \<and> Upsert cfg0 None env0 ((request_for ''tok-b'' ''key-b'')\<lparr>req_Name := ''Renamed''\<rparr>) two_devices
       = (Inr ((device_of ''tok-a'' ''key-b'' ''Renamed'' ''ACTIVE'')\<lparr>UpdatedAt := 1000\<rparr>),
          store_of [(''tok-a'', (device_of ''tok-a'' ''key-b'' ''Renamed'' ''ACTIVE'')\<lparr>UpdatedAt := 1000\<rparr>),
                    (''tok-b'', device_of ''tok-b'' ''key-b'' ''Beta'' ''ACTIVE'')])
   \<and> GetDevice two_devices None ''tok-b'' = Inr (device_of ''tok-a'' ''key-a'' ''Alpha'' ''ACTIVE'')"
  by code_simp

section \<open>Properties of the dispatch\<close>

subsection \<open>Schedules, the accumulator and the targets\<close>

lemma mset_interleave: "mset (interleave picks xs) = mset xs"
proof (induction picks xs rule: interleave.induct)
  case (1 picks xs)
  show ?case
  proof (cases "xs = []")
    case True
    then show ?thesis by (simp add: interleave.simps)
  next
    case ne: False
    show ?thesis
    proof (cases picks)
      case Nil
      with ne show ?thesis by (simp add: interleave.simps)
    next
      case (Cons p ps)
      define i where "i = p mod length xs"
      have i: "i < length xs" using ne by (simp add: i_def)
      have "mset (interleave ps (take i xs @ drop (Suc i) xs)) = mset (take i xs @ drop (Suc i) xs)"
        using "1.IH" [OF ne Cons] by (simp add: i_def)
      moreover have "interleave picks xs = xs ! i # interleave ps (take i xs @ drop (Suc i) xs)"
        using ne Cons by (subst interleave.simps) (simp add: i_def)
      moreover have "xs = take i xs @ xs ! i # drop (Suc i) xs"
        using i by (rule id_take_nth_drop)
      then have "mset xs = mset (take i xs @ drop (Suc i) xs) + {#xs ! i#}"
        by (metis mset.simps(2) mset_append union_mset_add_mset_right add.right_neutral)
      ultimately show ?thesis by simp
    qed
  qed
qed

lemma length_interleave: "length (interleave picks xs) = length xs"
  using mset_interleave [of picks xs] by (metis size_mset)

lemma fold_collect:
  "fold collect rs (acc, n) = (acc @ rs, n + length (filter (\<lambda>r. res_Status r = ''SUCCESS'') rs))"
  by (induction rs arbitrary: acc n) (simp_all add: collect_def)

lemma deliver_DeviceKey: "res_DeviceKey (deliver env payload i device) = DeviceKey device"
  by (simp add: deliver_def failed_result_def split: sum.splits option.splits)

lemma jobs_length: "length (jobs env req targets) = length targets"
  by (simp add: jobs_def)

lemma jobs_results:
  "map (\<lambda>j. snd (snd j)) (jobs env req targets)
     = map (\<lambda>(i, device). deliver env (build_payload req) i device) (enumerate 0 targets)"
  by (simp add: jobs_def split_def)

lemma jobs_keys:
  "map (\<lambda>j. res_DeviceKey (snd (snd j))) (jobs env req targets) = map DeviceKey targets"
proof -
  have "map (\<lambda>j. res_DeviceKey (snd (snd j))) (jobs env req targets)
        = map (\<lambda>p. DeviceKey (snd p)) (enumerate 0 targets)"
    by (simp add: jobs_def split_def deliver_DeviceKey)
  also have "\<dots> = map (DeviceKey \<circ> snd) (enumerate 0 targets)"
    by (simp only: comp_def)
  also have "\<dots> = map DeviceKey (map snd (enumerate 0 targets))"
    by (simp only: map_map)
  also have "\<dots> = map DeviceKey targets"
    by (simp only: map_snd_enumerate)
  finally show ?thesis .
qed

text \<open>A call that passes the checks and resolves at least one target.\<close>

lemma Broadcast_dispatch:
  assumes body: "TrimSpace (Body req) \<noteq> []" and bark: "bark = Some client"
    and pick: "pickTargets s env (DeviceKeys req) = (targets, failures)"
    and ne: "targets \<noteq> []"
  shows "Broadcast bark env req s =
           ((\<lparr>SendNum = length targets,
              SuccessNum = length (filter (\<lambda>r. res_Status r = ''SUCCESS'')
                 (map (\<lambda>j. snd (snd j)) (interleave (result_order env) (jobs env req targets))))\<rparr>,
             failures @ map (\<lambda>j. snd (snd j)) (interleave (result_order env) (jobs env req targets)),
             None),
            fold (appendLog client env req) (interleave (log_order env) (jobs env req targets)) s)"
  using assms by (simp add: Broadcast_def Let_def fold_collect)

lemma Broadcast_no_targets:
  assumes body: "TrimSpace (Body req) \<noteq> []" and bark: "bark = Some client"
    and pick: "pickTargets s env (DeviceKeys req) = ([], failures)"
  shows "Broadcast bark env req s = ((\<lparr>SendNum = 0, SuccessNum = 0\<rparr>, failures, Some ErrNoTargets), s)"
  using assms by (simp add: Broadcast_def)

lemma resolve_keys_lookups:
  "resolve_keys s (lookup_fault env) i keys
     = (found (lookups s env i keys), not_found (lookups s env i keys))"
proof (induction keys arbitrary: i)
  case Nil
  show ?case by (simp add: lookups_def)
next
  case (Cons key keys)
  have l: "lookups s env i (key # keys)
           = (key, GetDeviceByKey s (lookup_fault env i) key) # lookups s env (Suc i) keys"
    by (simp add: lookups_def)
  show ?case
    unfolding l using Cons.IH [of "Suc i"]
    by (cases "GetDeviceByKey s (lookup_fault env i) key") simp_all
qed

lemma pickTargets_keys:
  assumes "keys \<noteq> []"
  shows "pickTargets s env keys = (found (lookups s env 0 keys), not_found (lookups s env 0 keys))"
  using assms by (simp add: pickTargets_def resolve_keys_lookups)

lemma found_not_found_length: "length (found ls) + length (not_found ls) = length ls"
  by (induction ls rule: found.induct) simp_all

lemma lookups_length: "length (lookups s env i keys) = length keys"
  by (simp add: lookups_def)

lemma not_found_FAILED: "r \<in> set (not_found ls) \<Longrightarrow> res_Status r = ''FAILED''"
  by (induction ls rule: not_found.induct) (auto simp: failed_result_def)

lemma pickTargets_FAILED:
  assumes "pickTargets s env keys = (targets, failures)" and "r \<in> set failures"
  shows "res_Status r = ''FAILED''"
proof (cases "keys = []")
  case True
  with assms show ?thesis
    by (auto simp: pickTargets_def failed_result_def split: sum.splits)
next
  case False
  with assms pickTargets_keys [OF False, of s env] show ?thesis
    by (auto dest: not_found_FAILED)
qed

lemma no_SUCCESS_in_failures:
  assumes "pickTargets s env keys = (targets, failures)"
  shows "filter (\<lambda>r. res_Status r = ''SUCCESS'') failures = []"
  using pickTargets_FAILED [OF assms] by (auto simp: filter_empty_conv)

lemma is_active_eq: "is_active d = counts_as_active d"
  by (simp add: is_active_def counts_as_active_def Let_def DeviceStatusActive_def)

lemma STOP_not_active:
  "Status d = ''STOP'' \<or> Status d = ''STOPPED'' \<Longrightarrow> \<not> counts_as_active d"
proof -
  have "ToUpper (TrimSpace ''STOP'') = ''STOP''" by code_simp
  moreover have "ToUpper (TrimSpace ''STOPPED'') = ''STOPPED''" by code_simp
  ultimately show "Status d = ''STOP'' \<or> Status d = ''STOPPED'' \<Longrightarrow> \<not> counts_as_active d"
    by (auto simp: counts_as_active_def)
qed

lemma GetDeviceByKey_key:
  assumes "GetDeviceByKey s fault key = Inr d"
  shows "DeviceKey d = key"
  using assms
  by (auto simp: GetDeviceByKey_def getByKey_def find_Some_iff split: option.splits)

lemma found_keys:
  "set (map DeviceKey (found (lookups s env i keys))) \<subseteq> set keys
   \<and> (distinct keys \<longrightarrow> distinct (map DeviceKey (found (lookups s env i keys))))"
proof (induction keys arbitrary: i)
  case Nil
  show ?case by (simp add: lookups_def)
next
  case (Cons key keys)
  have l: "lookups s env i (key # keys)
           = (key, GetDeviceByKey s (lookup_fault env i) key) # lookups s env (Suc i) keys"
    by (simp add: lookups_def)
  note IH = Cons.IH [of "Suc i"]
  show ?case
  proof (cases "GetDeviceByKey s (lookup_fault env i) key")
    case (Inl e)
    with IH show ?thesis unfolding l by auto
  next
    case (Inr d)
    then have "DeviceKey d = key" by (rule GetDeviceByKey_key)
    with Inr IH show ?thesis unfolding l by auto
  qed
qed

subsection \<open>Summary and results\<close>

text \<open>
  A list of device keys that names the key of one device twice: the device is a target
  twice, \<open>SendNum\<close> is 2 for the one device, and the device has two results.
\<close>

theorem Broadcast_key_listed_twice:
  "pickTargets two_devices benv0 (DeviceKeys (notice ''hi'' [''key-a'', ''key-a'']))
     = ([device_of ''tok-a'' ''key-a'' ''Alpha'' ''ACTIVE'',
         device_of ''tok-a'' ''key-a'' ''Alpha'' ''ACTIVE''], [])
   \<and> remdups [device_of ''tok-a'' ''key-a'' ''Alpha'' ''ACTIVE'',
               device_of ''tok-a'' ''key-a'' ''Alpha'' ''ACTIVE'']
       = [device_of ''tok-a'' ''key-a'' ''Alpha'' ''ACTIVE'']
   \<and> fst (Broadcast (Some client0) benv0 (notice ''hi'' [''key-a'', ''key-a'']) two_devices)
       = (\<lparr>SendNum = 2, SuccessNum = 2\<rparr>,
          [\<lparr>res_DeviceKey = ''key-a'', res_Status = ''SUCCESS'', res_Message = ''success''\<rparr>,
           \<lparr>res_DeviceKey = ''key-a'', res_Status = ''SUCCESS'', res_Message = ''success''\<rparr>],
          None)"
  by code_simp

text \<open>
  Claim C1, as the code has it. When the body is not blank, a client is configured and
  \<^verbatim>\<open>pickTargets\<close> resolves at least one target, \<^verbatim>\<open>Broadcast\<close> returns no error,
  whatever the scheduler does. A target is an entry of the list that \<^verbatim>\<open>pickTargets\<close>
  returns: one for every listed key that resolves, so a device whose key is listed
  twice is two targets. \<open>SendNum\<close> is the number of targets, the lookup failures not
  counted. The results are the lookup failures followed by the per-device results
  \<open>per\<close>; these are, as a multiset, the results of the goroutines of the targets, one
  for each target and in some order, so no target's result is duplicated and none is
  omitted, and their device keys are the keys of the targets. \<open>SuccessNum\<close> is the
  number of per-device results with the status \<^verbatim>\<open>SUCCESS\<close>, which is also their number
  in the whole list. When the listed keys are distinct, the device keys of the
  per-device results are distinct: no device has two results.
\<close>

theorem Broadcast_summary_and_results:
  assumes "TrimSpace (Body req) \<noteq> []" and "bark = Some client"
    and "pickTargets s env (DeviceKeys req) = (targets, failures)" and "targets \<noteq> []"
  shows "\<exists>per s'.
           Broadcast bark env req s
             = ((\<lparr>SendNum = length targets,
                  SuccessNum = length (filter (\<lambda>r. res_Status r = ''SUCCESS'') per)\<rparr>,
                 failures @ per, None), s')
           \<and> mset per = mset (map (\<lambda>(i, device). deliver env (build_payload req) i device)
                                  (enumerate 0 targets))
           \<and> mset (map res_DeviceKey per) = mset (map DeviceKey targets)
           \<and> length per = length targets
           \<and> length (filter (\<lambda>r. res_Status r = ''SUCCESS'') (failures @ per))
               = length (filter (\<lambda>r. res_Status r = ''SUCCESS'') per)
           \<and> (DeviceKeys req \<noteq> [] \<and> distinct (DeviceKeys req) \<longrightarrow>
                distinct (map res_DeviceKey per))"
proof -
  define js where "js = interleave (result_order env) (jobs env req targets)"
  define per where "per = map (\<lambda>j. snd (snd j)) js"
  have m: "mset js = mset (jobs env req targets)"
    by (simp add: js_def mset_interleave)
  have "mset per = mset (map (\<lambda>j. snd (snd j)) (jobs env req targets))"
    unfolding per_def using m by (metis mset_map)
  then have p1: "mset per = mset (map (\<lambda>(i, device). deliver env (build_payload req) i device)
                                  (enumerate 0 targets))"
    by (simp only: jobs_results)
  have "mset (map res_DeviceKey per) = mset (map (\<lambda>j. res_DeviceKey (snd (snd j))) js)"
    by (simp add: per_def comp_def)
  also have "\<dots> = mset (map (\<lambda>j. res_DeviceKey (snd (snd j))) (jobs env req targets))"
    using m by (metis mset_map)
  finally have p2: "mset (map res_DeviceKey per) = mset (map DeviceKey targets)"
    by (simp only: jobs_keys)
  have p3: "length per = length targets"
    by (simp add: per_def js_def length_interleave jobs_length)
  have p4: "length (filter (\<lambda>r. res_Status r = ''SUCCESS'') (failures @ per))
               = length (filter (\<lambda>r. res_Status r = ''SUCCESS'') per)"
    using no_SUCCESS_in_failures [OF assms(3)] by simp
  have p5: "DeviceKeys req \<noteq> [] \<and> distinct (DeviceKeys req) \<longrightarrow>
              distinct (map res_DeviceKey per)"
  proof
    assume h: "DeviceKeys req \<noteq> [] \<and> distinct (DeviceKeys req)"
    then have "pickTargets s env (DeviceKeys req)
                 = (found (lookups s env 0 (DeviceKeys req)),
                    not_found (lookups s env 0 (DeviceKeys req)))"
      by (simp add: pickTargets_keys)
    with assms(3) have "targets = found (lookups s env 0 (DeviceKeys req))" by simp
    with h found_keys [of s env 0 "DeviceKeys req"]
    have "distinct (map DeviceKey targets)" by simp
    with p2 show "distinct (map res_DeviceKey per)"
      by (metis mset_eq_imp_distinct_iff)
  qed
  from Broadcast_dispatch [OF assms]
  have "Broadcast bark env req s
             = ((\<lparr>SendNum = length targets,
                  SuccessNum = length (filter (\<lambda>r. res_Status r = ''SUCCESS'') per)\<rparr>,
                 failures @ per, None),
                fold (appendLog client env req) (interleave (log_order env) (jobs env req targets)) s)"
    by (simp add: per_def js_def)
  with p1 p2 p3 p4 p5 show ?thesis by blast
qed

theorem Broadcast_summary_and_results_witness:
  "TrimSpace (Body (notice ''hi'' [''nope'', ''key-b'', ''key-a''])) \<noteq> []
   \<and> pickTargets two_devices benv0 (DeviceKeys (notice ''hi'' [''nope'', ''key-b'', ''key-a'']))
       = ([device_of ''tok-b'' ''key-b'' ''Beta'' ''ACTIVE'',
           device_of ''tok-a'' ''key-a'' ''Alpha'' ''ACTIVE''],
          [failed_result ''nope'' ''not found''])
   \<and> DeviceKeys (notice ''hi'' [''nope'', ''key-b'', ''key-a'']) \<noteq> []
   \<and> distinct (DeviceKeys (notice ''hi'' [''nope'', ''key-b'', ''key-a'']))
   \<and> fst (Broadcast (Some client0) benv0 (notice ''hi'' [''nope'', ''key-b'', ''key-a'']) two_devices)
       = (\<lparr>SendNum = 2, SuccessNum = 1\<rparr>,
          [failed_result ''nope'' ''not found'',
           \<lparr>res_DeviceKey = ''key-a'', res_Status = ''SUCCESS'', res_Message = ''success''\<rparr>,
           failed_result ''key-b'' ''push http status 500 Internal Server Error''],
          None)
   \<and> distinct (map res_DeviceKey
         [\<lparr>res_DeviceKey = ''key-a'', res_Status = ''SUCCESS'', res_Message = ''success''\<rparr>,
          failed_result ''key-b'' ''push http status 500 Internal Server Error''])"
proof -
  let ?req = "notice ''hi'' [''nope'', ''key-b'', ''key-a'']"
  let ?targets = "[device_of ''tok-b'' ''key-b'' ''Beta'' ''ACTIVE'',
                   device_of ''tok-a'' ''key-a'' ''Alpha'' ''ACTIVE'']"
  let ?per = "[\<lparr>res_DeviceKey = ''key-a'', res_Status = ''SUCCESS'', res_Message = ''success''\<rparr>,
               failed_result ''key-b'' ''push http status 500 Internal Server Error'']"
  have h1: "TrimSpace (Body ?req) \<noteq> []" by code_simp
  have h2: "Some client0 = Some client0" by simp
  have h3: "pickTargets two_devices benv0 (DeviceKeys ?req)
              = (?targets, [failed_result ''nope'' ''not found''])" by code_simp
  have h4: "?targets \<noteq> []" by simp
  have h5: "DeviceKeys ?req \<noteq> [] \<and> distinct (DeviceKeys ?req)" by (simp add: notice_def)
  from Broadcast_summary_and_results [OF h1 h2 h3 h4]
  obtain per s' where
    b: "Broadcast (Some client0) benv0 ?req two_devices
       = ((\<lparr>SendNum = length ?targets,
            SuccessNum = length (filter (\<lambda>r. res_Status r = ''SUCCESS'') per)\<rparr>,
           [failed_result ''nope'' ''not found''] @ per, None), s')"
    and d: "DeviceKeys ?req \<noteq> [] \<and> distinct (DeviceKeys ?req) \<longrightarrow>
              distinct (map res_DeviceKey per)"
    by blast
  have v: "fst (Broadcast (Some client0) benv0 ?req two_devices)
       = (\<lparr>SendNum = 2, SuccessNum = 1\<rparr>,
          [failed_result ''nope'' ''not found''] @ ?per, None)" by code_simp
  from b v have "per = ?per" by simp
  with d h5 have dp: "distinct (map res_DeviceKey ?per)" by blast
  from h1 h3 h5 v dp show ?thesis by simp
qed

subsection \<open>Explicit device keys\<close>

text \<open>
  A service without a client of the upstream: the call ends at the check for the
  client, before any key is looked up. The unknown key gives no failed result and the
  error is not the one for unresolved targets.
\<close>

theorem Broadcast_without_client:
  "DeviceKeys (notice ''hi'' [''nope'']) = [''nope'']
   \<and> found (lookups two_devices benv0 0 [''nope'']) = []
   \<and> not_found (lookups two_devices benv0 0 [''nope'']) = [failed_result ''nope'' ''not found'']
   \<and> Broadcast None benv0 (notice ''hi'' [''nope'']) two_devices
       = ((\<lparr>SendNum = 0, SuccessNum = 0\<rparr>, [], Some ErrBarkNotConfigured), two_devices)
   \<and> ErrBarkNotConfigured \<noteq> ErrNoTargets"
  by code_simp

text \<open>
  Claim C2, as the code has it. With a body that is not blank, a configured client and a
  list of device keys
  that is not empty, \<^verbatim>\<open>pickTargets\<close> returns what the lookups of the keys give, each
  looked up on its own: the devices found, and for every key that is not found a
  \<^verbatim>\<open>FAILED\<close> result with that key and the message of its error; every key gives one or
  the other. When no device is found, \<^verbatim>\<open>Broadcast\<close> returns the error that no target
  was resolved together with the results of the failed lookups, and the store is as it
  was. When a device is found, it returns no error, the failed lookups come first,
  \<open>SendNum\<close> is the number of devices found and the results are as many as the keys:
  with one unknown and one known key, 2 results and \<open>SendNum\<close> 1.
\<close>

theorem Broadcast_explicit_keys:
  assumes "TrimSpace (Body req) \<noteq> []" and "bark = Some client" and "DeviceKeys req \<noteq> []"
  shows "pickTargets s env (DeviceKeys req)
           = (found (lookups s env 0 (DeviceKeys req)), not_found (lookups s env 0 (DeviceKeys req)))
         \<and> length (found (lookups s env 0 (DeviceKeys req)))
             + length (not_found (lookups s env 0 (DeviceKeys req))) = length (DeviceKeys req)
         \<and> (found (lookups s env 0 (DeviceKeys req)) = [] \<longrightarrow>
              Broadcast bark env req s
                = ((\<lparr>SendNum = 0, SuccessNum = 0\<rparr>, not_found (lookups s env 0 (DeviceKeys req)),
                    Some ErrNoTargets), s))
         \<and> (found (lookups s env 0 (DeviceKeys req)) \<noteq> [] \<longrightarrow>
              (\<exists>summary per s'.
                 Broadcast bark env req s
                   = ((summary, not_found (lookups s env 0 (DeviceKeys req)) @ per, None), s')
                 \<and> SendNum summary = length (found (lookups s env 0 (DeviceKeys req)))
                 \<and> length (not_found (lookups s env 0 (DeviceKeys req)) @ per)
                     = length (DeviceKeys req)))"
proof -
  let ?ls = "lookups s env 0 (DeviceKeys req)"
  have pick: "pickTargets s env (DeviceKeys req) = (found ?ls, not_found ?ls)"
    by (rule pickTargets_keys [OF assms(3)])
  have len: "length (found ?ls) + length (not_found ?ls) = length (DeviceKeys req)"
    by (simp add: found_not_found_length lookups_length)
  have none: "found ?ls = [] \<longrightarrow>
      Broadcast bark env req s = ((\<lparr>SendNum = 0, SuccessNum = 0\<rparr>, not_found ?ls, Some ErrNoTargets), s)"
    using Broadcast_no_targets [OF assms(1,2), of s env "not_found ?ls"] pick by simp
  have some: "found ?ls \<noteq> [] \<longrightarrow>
      (\<exists>summary per s'.
         Broadcast bark env req s = ((summary, not_found ?ls @ per, None), s')
         \<and> SendNum summary = length (found ?ls)
         \<and> length (not_found ?ls @ per) = length (DeviceKeys req))"
  proof
    assume ne: "found ?ls \<noteq> []"
    define per where
      "per = map (\<lambda>j. snd (snd j)) (interleave (result_order env) (jobs env req (found ?ls)))"
    have "length per = length (found ?ls)"
      by (simp add: per_def length_interleave jobs_length)
    with len have "length (not_found ?ls @ per) = length (DeviceKeys req)" by simp
    moreover from Broadcast_dispatch [OF assms(1,2) pick ne]
    have "Broadcast bark env req s
            = ((\<lparr>SendNum = length (found ?ls),
                 SuccessNum = length (filter (\<lambda>r. res_Status r = ''SUCCESS'') per)\<rparr>,
                not_found ?ls @ per, None),
               fold (appendLog client env req)
                    (interleave (log_order env) (jobs env req (found ?ls))) s)"
      by (simp add: per_def)
    ultimately show "\<exists>summary per s'.
         Broadcast bark env req s = ((summary, not_found ?ls @ per, None), s')
         \<and> SendNum summary = length (found ?ls)
         \<and> length (not_found ?ls @ per) = length (DeviceKeys req)"
      by (metis NoticeSummary.select_convs(1))
  qed
  from pick len none some show ?thesis by blast
qed

theorem Broadcast_explicit_keys_witness:
  "TrimSpace (Body (notice ''hi'' [''nope'', ''key-a''])) \<noteq> []
   \<and> DeviceKeys (notice ''hi'' [''nope'', ''key-a'']) = [''nope'', ''key-a'']
   \<and> found (lookups two_devices benv0 0 [''nope'', ''key-a''])
       = [device_of ''tok-a'' ''key-a'' ''Alpha'' ''ACTIVE'']
   \<and> not_found (lookups two_devices benv0 0 [''nope'', ''key-a''])
       = [failed_result ''nope'' ''not found'']
   \<and> (\<exists>summary per s'.
         Broadcast (Some client0) benv0 (notice ''hi'' [''nope'', ''key-a'']) two_devices
           = ((summary, [failed_result ''nope'' ''not found''] @ per, None), s')
         \<and> SendNum summary = 1
         \<and> length ([failed_result ''nope'' ''not found''] @ per) = 2)
   \<and> DeviceKeys (notice ''hi'' [''nope'']) = [''nope'']
   \<and> found (lookups two_devices benv0 0 [''nope'']) = []
   \<and> Broadcast (Some client0) benv0 (notice ''hi'' [''nope'']) two_devices
       = ((\<lparr>SendNum = 0, SuccessNum = 0\<rparr>, [failed_result ''nope'' ''not found''],
           Some ErrNoTargets), two_devices)"
proof -
  let ?req = "notice ''hi'' [''nope'', ''key-a'']"
  let ?single = "notice ''hi'' [''nope'']"
  have h1: "TrimSpace (Body ?req) \<noteq> []" by code_simp
  have h1': "TrimSpace (Body ?single) \<noteq> []" by code_simp
  have h2: "Some client0 = Some client0" by simp
  have k: "DeviceKeys ?req = [''nope'', ''key-a'']" by (simp add: notice_def)
  have k0: "DeviceKeys ?single = [''nope'']" by (simp add: notice_def)
  have h3: "DeviceKeys ?req \<noteq> []" by (simp add: k)
  have h3': "DeviceKeys ?single \<noteq> []" by (simp add: k0)
  have f: "found (lookups two_devices benv0 0 [''nope'', ''key-a''])
            = [device_of ''tok-a'' ''key-a'' ''Alpha'' ''ACTIVE'']" by code_simp
  have n: "not_found (lookups two_devices benv0 0 [''nope'', ''key-a''])
            = [failed_result ''nope'' ''not found'']" by code_simp
  have f0: "found (lookups two_devices benv0 0 [''nope'']) = []" by code_simp
  have n0: "not_found (lookups two_devices benv0 0 [''nope''])
            = [failed_result ''nope'' ''not found'']" by code_simp
  from Broadcast_explicit_keys [OF h1 h2 h3, of two_devices benv0]
  have a: "\<exists>summary per s'.
         Broadcast (Some client0) benv0 ?req two_devices
           = ((summary, [failed_result ''nope'' ''not found''] @ per, None), s')
         \<and> SendNum summary = 1
         \<and> length ([failed_result ''nope'' ''not found''] @ per) = 2"
    unfolding k f n by simp
  from Broadcast_explicit_keys [OF h1' h2 h3', of two_devices benv0]
  have b: "Broadcast (Some client0) benv0 ?single two_devices
       = ((\<lparr>SendNum = 0, SuccessNum = 0\<rparr>, [failed_result ''nope'' ''not found''],
           Some ErrNoTargets), two_devices)"
    unfolding k0 f0 n0 by simp
  from h1 k f n a k0 f0 b show ?thesis by blast
qed

subsection \<open>Validation of the body\<close>

text \<open>
  Claim C6. When the body of the request is empty or white space only, \<^verbatim>\<open>Broadcast\<close>
  returns the error that the body is required, an empty list of results and the store
  it was called with, so no log entry is written. The result is the same for every
  environment: no lookup and no answer of the upstream enters it.
\<close>

theorem Broadcast_blank_body:
  assumes "TrimSpace (Body req) = []"
  shows "Broadcast bark env req s
           = ((\<lparr>SendNum = 0, SuccessNum = 0\<rparr>, [], Some ErrBodyRequired), s)"
  using assms by (simp add: Broadcast_def)

theorem Broadcast_blank_body_witness:
  "TrimSpace (Body (notice '' '' [''key-a''])) = []
   \<and> Broadcast (Some client0) benv0 (notice '' '' [''key-a'']) two_devices
       = ((\<lparr>SendNum = 0, SuccessNum = 0\<rparr>, [], Some ErrBodyRequired), two_devices)
   \<and> logs (snd (Broadcast (Some client0) benv0 (notice '' '' [''key-a'']) two_devices))
       = logs two_devices"
proof -
  have h: "TrimSpace (Body (notice '' '' [''key-a''])) = []" by code_simp
  from Broadcast_blank_body [OF h, of "Some client0" benv0 two_devices] h
  show ?thesis by simp
qed

subsection \<open>Targets of a broadcast without device keys\<close>

text \<open>
  A device with an empty status and a device whose status is \<^verbatim>\<open>ACTIVE\<close> between blanks
  are targets of a broadcast without device keys, and are pushed to.
\<close>

theorem pickTargets_admits_blank_status:
  "pickTargets mixed_status benv0 []
     = ([device_of ''tok-a'' ''key-a'' ''Alpha'' [],
         device_of ''tok-b'' ''key-b'' ''Beta'' '' ACTIVE ''], [])
   \<and> Status (device_of ''tok-a'' ''key-a'' ''Alpha'' []) \<noteq> ''ACTIVE''
   \<and> Status (device_of ''tok-b'' ''key-b'' ''Beta'' '' ACTIVE '') \<noteq> ''ACTIVE''
   \<and> fst (Broadcast (Some client0) benv0 (notice ''hi'' []) mixed_status)
       = (\<lparr>SendNum = 2, SuccessNum = 1\<rparr>,
          [failed_result ''key-b'' ''push http status 500 Internal Server Error'',
           \<lparr>res_DeviceKey = ''key-a'', res_Status = ''SUCCESS'', res_Message = ''success''\<rparr>],
          None)"
  by code_simp

text \<open>
  Claim C7, as the code has it. When the listing does not fail, the targets of a
  broadcast without device keys are exactly the stored devices whose status, with
  leading and trailing white space removed and upper-cased, is empty or \<^verbatim>\<open>ACTIVE\<close>, in
  the order of the bucket. A device whose status is \<^verbatim>\<open>STOP\<close> or \<^verbatim>\<open>STOPPED\<close> is never
  among them, and the device keys of the results of such a broadcast are the keys of
  these devices.
\<close>

theorem pickTargets_without_keys:
  assumes "list_fault env = None"
  shows "pickTargets s env [] = (filter counts_as_active (map snd (devices s)), [])
         \<and> (\<forall>d \<in> set (fst (pickTargets s env [])). Status d \<noteq> ''STOP'' \<and> Status d \<noteq> ''STOPPED'')
         \<and> (TrimSpace (Body req) \<noteq> [] \<and> bark = Some client \<and> DeviceKeys req = [] \<longrightarrow>
              (\<exists>summary results err s'.
                 Broadcast bark env req s = ((summary, results, err), s')
                 \<and> mset (map res_DeviceKey results)
                     = mset (map DeviceKey (filter counts_as_active (map snd (devices s))))))"
proof -
  let ?act = "filter counts_as_active (map snd (devices s))"
  have pick: "pickTargets s env [] = (?act, [])"
    using assms
    by (simp add: pickTargets_def ListActiveDevices_def list_devices_def is_active_eq [abs_def])
  have stop: "\<forall>d \<in> set (fst (pickTargets s env [])). Status d \<noteq> ''STOP'' \<and> Status d \<noteq> ''STOPPED''"
    unfolding pick using STOP_not_active by auto
  have bc: "TrimSpace (Body req) \<noteq> [] \<and> bark = Some client \<and> DeviceKeys req = [] \<longrightarrow>
              (\<exists>summary results err s'.
                 Broadcast bark env req s = ((summary, results, err), s')
                 \<and> mset (map res_DeviceKey results) = mset (map DeviceKey ?act))"
  proof
    assume h: "TrimSpace (Body req) \<noteq> [] \<and> bark = Some client \<and> DeviceKeys req = []"
    then have p: "pickTargets s env (DeviceKeys req) = (?act, [])" using pick by simp
    show "\<exists>summary results err s'.
                 Broadcast bark env req s = ((summary, results, err), s')
                 \<and> mset (map res_DeviceKey results) = mset (map DeviceKey ?act)"
    proof (cases "?act = []")
      case True
      with p h Broadcast_no_targets [of req bark client s env "[]"]
      have "Broadcast bark env req s = ((\<lparr>SendNum = 0, SuccessNum = 0\<rparr>, [], Some ErrNoTargets), s)"
        by simp
      with True show ?thesis by simp
    next
      case False
      define per where
        "per = map (\<lambda>j. snd (snd j)) (interleave (result_order env) (jobs env req ?act))"
      have "mset (map res_DeviceKey per)
            = mset (map (\<lambda>j. res_DeviceKey (snd (snd j))) (interleave (result_order env) (jobs env req ?act)))"
        by (simp add: per_def comp_def)
      also have "\<dots> = mset (map (\<lambda>j. res_DeviceKey (snd (snd j))) (jobs env req ?act))"
        using mset_interleave [of "result_order env" "jobs env req ?act"] by (metis mset_map)
      finally have k: "mset (map res_DeviceKey per) = mset (map DeviceKey ?act)"
        by (simp only: jobs_keys)
      from h p False Broadcast_dispatch [of req bark client s env ?act "[]"]
      have "Broadcast bark env req s
            = ((\<lparr>SendNum = length ?act,
                 SuccessNum = length (filter (\<lambda>r. res_Status r = ''SUCCESS'') per)\<rparr>,
                per, None),
               fold (appendLog client env req) (interleave (log_order env) (jobs env req ?act)) s)"
        by (simp add: per_def)
      with k show ?thesis by blast
    qed
  qed
  from pick stop bc show ?thesis by blast
qed

theorem pickTargets_without_keys_witness:
  "list_fault benv0 = None
   \<and> pickTargets mixed_status benv0 []
       = (filter counts_as_active (map snd (devices mixed_status)), [])
   \<and> filter counts_as_active (map snd (devices mixed_status))
       = [device_of ''tok-a'' ''key-a'' ''Alpha'' [],
          device_of ''tok-b'' ''key-b'' ''Beta'' '' ACTIVE '']
   \<and> device_of ''tok-a'' ''key-a'' ''Alpha'' [] \<in> set (fst (pickTargets mixed_status benv0 []))
   \<and> Status (device_of ''tok-a'' ''key-a'' ''Alpha'' []) \<noteq> ''STOP''
   \<and> TrimSpace (Body (notice ''hi'' [])) \<noteq> [] \<and> DeviceKeys (notice ''hi'' []) = []
   \<and> (\<exists>summary results err s'.
         Broadcast (Some client0) benv0 (notice ''hi'' []) mixed_status
           = ((summary, results, err), s')
         \<and> mset (map res_DeviceKey results) = mset [''key-a'', ''key-b''])"
proof -
  let ?req = "notice ''hi'' []"
  let ?A = "device_of ''tok-a'' ''key-a'' ''Alpha'' []"
  have h: "list_fault benv0 = None" by (simp add: benv0_def)
  have b: "TrimSpace (Body ?req) \<noteq> []" by code_simp
  have k: "DeviceKeys ?req = []" by (simp add: notice_def)
  have f: "filter counts_as_active (map snd (devices mixed_status))
       = [?A, device_of ''tok-b'' ''key-b'' ''Beta'' '' ACTIVE '']" by code_simp
  have keys: "map DeviceKey [?A, device_of ''tok-b'' ''key-b'' ''Beta'' '' ACTIVE '']
                = [''key-a'', ''key-b'']" by (simp add: device_of_def)
  note t = pickTargets_without_keys [OF h, of mixed_status ?req "Some client0" client0]
  from t have p: "pickTargets mixed_status benv0 []
       = (filter counts_as_active (map snd (devices mixed_status)), [])" by blast
  then have m: "?A \<in> set (fst (pickTargets mixed_status benv0 []))" using f by simp
  with t have st: "Status ?A \<noteq> ''STOP''" by blast
  from t b k have "\<exists>summary results err s'.
         Broadcast (Some client0) benv0 ?req mixed_status = ((summary, results, err), s')
         \<and> mset (map res_DeviceKey results)
             = mset (map DeviceKey (filter counts_as_active (map snd (devices mixed_status))))"
    by blast
  then have bc: "\<exists>summary results err s'.
         Broadcast (Some client0) benv0 ?req mixed_status = ((summary, results, err), s')
         \<and> mset (map res_DeviceKey results) = mset [''key-a'', ''key-b'']"
    unfolding f keys .
  from h p f m st b k bc show ?thesis by blast
qed

section \<open>Properties of the log query\<close>

lemma wrap64_id: "- (2 ^ 63) \<le> x \<Longrightarrow> x < 2 ^ 63 \<Longrightarrow> wrap64 x = x"
  by (simp add: wrap64_def)

lemma length_insert_newest: "length (insert_newest x xs) = Suc (length xs)"
  by (induction xs) simp_all

lemma length_sort_newest: "length (sort_newest xs) = length xs"
  by (induction xs) (simp_all add: sort_newest_def length_insert_newest)

lemma filteredLogs_length:
  assumes "filteredLogs s fault flt = Inr matched"
  shows "length matched \<le> length (logs s)"
  using assms
  by (auto simp: filteredLogs_def ListNoticeLogs_def length_sort_newest split: option.splits)

lemma clampPageSize_range: "1 \<le> clampPageSize n \<and> clampPageSize n \<le> 100"
  by (simp add: clampPageSize_def Let_def)

lemma clampPage_range: "1 \<le> clampPage p"
  by (simp add: clampPage_def)

lemma go_div_nonneg:
  assumes "0 \<le> a" and "0 < b"
  shows "go_div a b = a div b"
proof (cases "a = 0")
  case True
  then show ?thesis by (simp add: go_div_def)
next
  case False
  with assms show ?thesis by (simp add: go_div_def)
qed

lemma slice_bounds_in_range:
  assumes pg: "1 \<le> page" and ps: "1 \<le> pageSize" "pageSize \<le> 100"
    and small: "(page - 1) * pageSize < 2 ^ 63"
    and tot: "0 \<le> cnt" "cnt < 2 ^ 62"
  shows "slice_bounds cnt page pageSize
           = (min ((page - 1) * pageSize) cnt, min (min ((page - 1) * pageSize) cnt + pageSize) cnt)"
proof -
  have nonneg: "0 \<le> (page - 1) * pageSize" using ps pg by simp
  have "page - 1 \<le> (page - 1) * pageSize" using ps pg by (simp add: mult_le_cancel_left1)
  with small have pgr: "page - 1 < 2 ^ 63" by simp
  have w1: "wrap64 (page - 1) = page - 1" using pg pgr by (intro wrap64_id) simp_all
  have w2: "wrap64 ((page - 1) * pageSize) = (page - 1) * pageSize"
    using nonneg small by (intro wrap64_id) simp_all
  define start where "start = min ((page - 1) * pageSize) cnt"
  have st: "0 \<le> start" "start \<le> cnt" using nonneg tot by (auto simp: start_def)
  have w3: "wrap64 (start + pageSize) = start + pageSize"
    using st ps tot by (intro wrap64_id) simp_all
  have s1: "(if (page - 1) * pageSize > cnt then cnt else (page - 1) * pageSize) = start"
    by (simp add: start_def min_def)
  have s2: "(if start + pageSize > cnt then cnt else start + pageSize)
            = min (start + pageSize) cnt"
    by (simp add: min_def)
  show ?thesis
    unfolding slice_bounds_def Let_def w1 w2 s1 w3 s2 by (simp add: start_def)
qed

text \<open>
  The pages of \<^verbatim>\<open>Query\<close> while the product \<open>(page - 1) * pageSize\<close> stays below \<open>2 ^ 63\<close>:
  no error, the bounds of the slice between 0 and the total, an empty page beyond the
  last one.
\<close>

lemma Query_in_range:
  assumes f: "filteredLogs s fault flt = Inr matched"
    and small: "(clampPage (Page flt) - 1) * clampPageSize (PageSize flt) < 2 ^ 63"
    and tot: "int (length matched) < 2 ^ 62"
  shows "Query s fault flt =
           Inr \<lparr>Data = take (nat (clampPageSize (PageSize flt)))
                         (drop (nat ((clampPage (Page flt) - 1) * clampPageSize (PageSize flt)))
                               matched),
                Total = int (length matched),
                Pages = (int (length matched) + clampPageSize (PageSize flt) - 1)
                          div clampPageSize (PageSize flt),
                PageNum = clampPage (Page flt),
                page_PageSize = clampPageSize (PageSize flt)\<rparr>"
proof -
  define cnt where "cnt = int (length matched)"
  define ps where "ps = clampPageSize (PageSize flt)"
  define pg where "pg = clampPage (Page flt)"
  have ps1: "1 \<le> ps" "ps \<le> 100" using clampPageSize_range [of "PageSize flt"] by (simp_all add: ps_def)
  have pg1: "1 \<le> pg" using clampPage_range [of "Page flt"] by (simp add: pg_def)
  have nonneg: "0 \<le> (pg - 1) * ps" using ps1 pg1 by simp
  define start where "start = min ((pg - 1) * ps) cnt"
  define "end" where "end = min (start + ps) cnt"
  have sb: "slice_bounds cnt pg ps = (start, end)"
    using slice_bounds_in_range [OF pg1 ps1, of cnt] small tot
    by (simp add: start_def end_def cnt_def ps_def pg_def)
  have st: "0 \<le> start" "start \<le> cnt" using nonneg by (auto simp: start_def cnt_def)
  have en: "start \<le> end" "end \<le> cnt" using ps1 st by (auto simp: end_def)
  have cap: "end \<le> int (length (logs s))"
    using en filteredLogs_length [OF f] by (simp add: cnt_def)
  have w4: "wrap64 (cnt + ps) = cnt + ps" "wrap64 (cnt + ps - 1) = cnt + ps - 1"
    using ps1 tot by (auto intro!: wrap64_id simp: cnt_def)
  have dv: "go_div (cnt + ps - 1) ps = (cnt + ps - 1) div ps"
    using ps1 by (intro go_div_nonneg) (simp_all add: cnt_def)
  have data: "take (nat (end - start)) (drop (nat start) matched)
              = take (nat ps) (drop (nat ((pg - 1) * ps)) matched)"
  proof (cases "(pg - 1) * ps > cnt")
    case True
    then have "nat ((pg - 1) * ps) \<ge> length matched" "start = cnt"
      by (simp_all add: cnt_def start_def)
    then show ?thesis by (simp add: cnt_def)
  next
    case False
    then have s: "start = (pg - 1) * ps" by (simp add: start_def)
    show ?thesis
    proof (cases "start + ps > cnt")
      case True
      then have "end = cnt" by (simp add: end_def)
      with True st have "length (drop (nat start) matched) = nat (end - start)"
        "nat (end - start) \<le> nat ps"
        by (simp_all add: cnt_def nat_diff_distrib)
      then show ?thesis unfolding s [symmetric] by simp
    next
      case False
      then have "end - start = ps" by (simp add: end_def)
      then show ?thesis by (simp add: s)
    qed
  qed
  have "Query s fault flt =
          Inr \<lparr>Data = take (nat (end - start)) (drop (nat start) matched),
               Total = cnt, Pages = go_div (wrap64 (wrap64 (cnt + ps) - 1)) ps,
               PageNum = pg, page_PageSize = ps\<rparr>"
    unfolding Query_def f using sb st en cap
    by (simp add: Let_def cnt_def [symmetric] ps_def [symmetric] pg_def [symmetric])
  then show ?thesis
    unfolding data w4 dv by (simp add: cnt_def ps_def pg_def)
qed

text \<open>
  Claim C9. The log bucket holds 25 entries, the filter selects all of them and asks
  for page \<open>2 ^ 63 - 1\<close>, the largest \<^verbatim>\<open>int\<close>, with 10 entries to the page. The product
  \<open>(page - 1) * pageSize\<close> wraps around to \<open>- 20\<close>. It is not greater than the total,
  so \<open>start\<close> stays \<open>- 20\<close> and \<open>end\<close> becomes \<open>- 10\<close>: the bounds are not clamped into
  the range from 0 to the total, and the slice expression panics instead of yielding
  an empty page.
\<close>

theorem Query_huge_page_panics:
  "Query (log_store 25) None (page_filter 9223372036854775807 10)
     = Inl (SliceBoundsPanic (- 20) (- 10))"
  by code_simp

text \<open>Page 3 of 25 entries with 10 to the page: the five oldest entries, and 3 pages.\<close>

lemma Query_page_3_of_25:
  "Query (log_store 25) None (page_filter 3 10)
     = Inr \<lparr>Data = map log_entry [5, 4, 3, 2, 1], Total = 25, Pages = 3, PageNum = 3,
            page_PageSize = 10\<rparr>"
  by code_simp

lemma Query_page_4_of_25:
  "Query (log_store 25) None (page_filter 4 10)
     = Inr \<lparr>Data = [], Total = 25, Pages = 3, PageNum = 4, page_PageSize = 10\<rparr>"
  by code_simp

end
